theory Spec2Isabelle
  imports Main "HOL-Library.AList"
begin

section \<open>Values exchanged with the client\<close>

text \<open>
  The handler of \<^verbatim>\<open>onWebSocketConnection.js\<close> works on what \<^verbatim>\<open>JSON.parse\<close> returns.
  A parsed value is one of the six JSON shapes; an object is the list of its own
  properties (the first binding of a key is the property's value). \<open>JNum n\<close> stands for
  the number \<open>n\<close>: the model covers the integral numbers that a double holds exactly and
  that JavaScript renders in plain decimal (magnitude up to \<open>2^53\<close>), which is what the
  protocol uses for \<^verbatim>\<open>offset\<close> and \<^verbatim>\<open>subscriptionId\<close>. Fractions, infinities and the
  exponent form of numbers from \<open>10^21\<close> on are outside it.
\<close>

datatype json =
    JNull
  | JBool bool
  | JNum int
  | JStr string
  | JArr "json list"
  | JObj "(string \<times> json) list"

text \<open>
  Property access \<^verbatim>\<open>message.field\<close>. \<open>None\<close> is JavaScript's \<^verbatim>\<open>undefined\<close>: the
  result for a property the object does not have, and for every field name the handler
  reads (\<^verbatim>\<open>type\<close>, \<^verbatim>\<open>sessionId\<close>, \<^verbatim>\<open>offset\<close>, \<^verbatim>\<open>subscriptionId\<close>, \<^verbatim>\<open>name\<close>) on a number,
  string, boolean or array.
\<close>

fun field :: "json \<Rightarrow> string \<Rightarrow> json option" where
  "field (JObj props) k = map_of props k"
| "field _ k = None"

subsection \<open>Conversion to string\<close>

definition digit :: "nat \<Rightarrow> char" where
  "digit d = ''0123456789'' ! (d mod 10)"

fun digits :: "nat \<Rightarrow> string" where
  "digits n = (if n < 10 then [digit n] else digits (n div 10) @ [digit n])"

declare digits.simps [simp del]

definition number_to_string :: "int \<Rightarrow> string" where
  "number_to_string i = (if i < 0 then CHR ''-'' # digits (nat (- i)) else digits (nat i))"

text \<open>
  JavaScript's \<^verbatim>\<open>ToString\<close> on a parsed value, as used by string concatenation, template
  literals and property keys. \<open>None\<close> is the \<^verbatim>\<open>TypeError\<close> "Cannot convert object to
  primitive value": a parsed object whose own \<^verbatim>\<open>toString\<close> property shadows
  \<^verbatim>\<open>Object.prototype.toString\<close> has no callable \<^verbatim>\<open>toString\<close> (a JSON value is never a
  function), and \<^verbatim>\<open>valueOf\<close> gives back the object itself. An array is joined with commas,
  \<^verbatim>\<open>null\<close> elements rendering as the empty string.
\<close>

fun to_string :: "json \<Rightarrow> string option"
  and join :: "json list \<Rightarrow> string option" where
  "to_string JNull = Some ''null''"
| "to_string (JBool b) = Some (if b then ''true'' else ''false'')"
| "to_string (JNum n) = Some (number_to_string n)"
| "to_string (JStr s) = Some s"
| "to_string (JArr xs) = join xs"
| "to_string (JObj props) =
     (if ''toString'' \<in> fst ` set props then None else Some ''[object Object]'')"
| "join [] = Some []"
| "join (x # xs) =
     (case (if x = JNull then Some [] else to_string x) of
        None \<Rightarrow> None
      | Some s \<Rightarrow>
          (if xs = [] then Some s
           else (case join xs of None \<Rightarrow> None | Some r \<Rightarrow> Some (s @ '','' @ r))))"

text \<open>The same conversion on a value that may be \<^verbatim>\<open>undefined\<close>.\<close>

fun to_property_key :: "json option \<Rightarrow> string option" where
  "to_property_key None = Some ''undefined''"
| "to_property_key (Some v) = to_string v"

section \<open>The connection and its collaborators\<close>

text \<open>
  What a stream factory returned, seen through the tests the handler applies to it:
  whether the value is truthy, whether its \<^verbatim>\<open>subscribe\<close> property is a function, its
  \<^verbatim>\<open>array\<close> property when \<^verbatim>\<open>Array.isArray\<close> holds of it, and its rendering in a template
  literal (\<open>None\<close> when the conversion throws, as for \<^verbatim>\<open>Object.create(null)\<close>).
\<close>

record returned =
  truthy :: bool
  has_subscribe :: bool
  array :: "json list option"
  shown :: "string option"

text \<open>
  \<^verbatim>\<open>observables[name]\<close>: nothing (or any falsy value), a truthy value that is not a
  function, or a factory. A factory is called with the offset and the session id (the
  socket it also receives is not modelled); \<open>None\<close> is a factory that throws.
\<close>

datatype catalog_entry =
    Missing
  | NotCallable
  | Factory "int \<Rightarrow> string option \<Rightarrow> returned option"

record connection =
  observables :: "string \<Rightarrow> catalog_entry"
  connectionId :: string
  xForwardedFor :: "string option"
  remoteAddress :: string

datatype envelope =
    Events "json list" int
  | ErrorEnvelope json int
  | Complete int

datatype domain_event = ConnectionOpen | ConnectionClosed

record meta =
  meta_connectionId :: string
  meta_sessionId :: "string option"
  meta_ipAddress :: string

text \<open>
  Everything the handlers do to the outside, in the order they do it: a line on the log
  subject, a line on \<^verbatim>\<open>console.error\<close>, a frame written to the socket, a domain event on
  the event subject, a call of a catalog factory, a call of \<^verbatim>\<open>unsubscribe\<close> on a
  subscription. The source never closes the socket, so there is no such effect.
\<close>

datatype effect =
    Log string
  | ConsoleError string
  | Send envelope
  | Emit domain_event meta
  | Invoke string int "string option"
  | Cancel nat

datatype exn = TypeError | FactoryError

datatype outcome = Returned | Raised exn

text \<open>
  A subscription object stored in the table: \<open>ref\<close> identifies the Rx subscription it is,
  \<open>name\<close> is the \<^verbatim>\<open>message.name\<close> assigned to it (possibly \<^verbatim>\<open>undefined\<close>).
\<close>

record subscription =
  ref :: nat
  name :: "json option"

text \<open>
  The closure's variables \<^verbatim>\<open>sessionId\<close> and \<^verbatim>\<open>subscriptions\<close>, and the part of Rx's state
  the handlers depend on: \<open>live\<close> maps each subscription that can still deliver to the
  \<^verbatim>\<open>subscriptionId\<close> its observer was created with; \<open>next_ref\<close> names the next
  subscription object.
\<close>

record state =
  sessionId :: "string option"
  subscriptions :: "(string \<times> subscription) list"
  live :: "(nat \<times> int) list"
  next_ref :: nat

definition initial :: state where
  "initial = \<lparr>sessionId = None, subscriptions = [], live = [], next_ref = 0\<rparr>"

datatype payload = Unparseable string | Parsed json

text \<open>
  What a batched stream hands to its observer. A batch is an array of items; items and
  error values are modelled as JSON values, which is what reaches the client.
\<close>

datatype notification = OnNext "json list" | OnError json | OnComplete

section \<open>The closures of onWebSocketConnection\<close>

definition remoteAddr :: "connection \<Rightarrow> string" where
  "remoteAddr c =
     (case xForwardedFor c of
        None \<Rightarrow> remoteAddress c
      | Some h \<Rightarrow> if h = [] then remoteAddress c else h)"

definition log :: "connection \<Rightarrow> string \<Rightarrow> effect" where
  "log c message = Log (''['' @ remoteAddr c @ ''] '' @ message)"

text \<open>
  The body of \<^verbatim>\<open>onWebSocketConnection\<close> itself: it logs, starts with no session id and an
  empty table, and registers the handlers below.
\<close>

definition onWebSocketConnection :: "connection \<Rightarrow> state \<times> effect list" where
  "onWebSocketConnection c = (initial, [log c ''WebSocket connection opened''])"

definition send :: "connection \<Rightarrow> nat \<Rightarrow> envelope \<Rightarrow> effect list" where
  "send c readyState object =
     (if readyState = 1 then [Send object]
      else [log c (''Tried to send to WebSocket in readyState: '' @ digits readyState)])"

fun createObserver :: "connection \<Rightarrow> nat \<Rightarrow> int \<Rightarrow> notification \<Rightarrow> effect list \<times> outcome" where
  "createObserver c rs subscriptionId (OnNext batch) =
     (send c rs (Events batch subscriptionId), Returned)"
| "createObserver c rs subscriptionId (OnError error) =
     (case to_string error of
        None \<Rightarrow> ([], Raised TypeError)
      | Some str \<Rightarrow> (log c str # send c rs (ErrorEnvelope error subscriptionId), Returned))"
| "createObserver c rs subscriptionId OnComplete =
     (send c rs (Complete subscriptionId), Returned)"

definition insertEvent :: "connection \<Rightarrow> state \<Rightarrow> domain_event \<Rightarrow> effect" where
  "insertEvent c st event =
     Emit event \<lparr>meta_connectionId = connectionId c, meta_sessionId = sessionId st,
                 meta_ipAddress = remoteAddr c\<rparr>"

text \<open>
  \<^verbatim>\<open>unsubscribe()\<close> on an Rx subscription: it stops delivering; a second call changes
  nothing.
\<close>

definition unsubscribe :: "nat \<Rightarrow> (nat \<times> int) list \<Rightarrow> (nat \<times> int) list" where
  "unsubscribe r lv = AList.delete r lv"

subsection \<open>The table's own properties\<close>

text \<open>
  The table is an ordinary object, and the list that models it keeps its own properties
  in the order in which \<^verbatim>\<open>for\<close>-\<^verbatim>\<open>in\<close> enumerates them: first the keys that are array
  indices (the decimal rendering of an integer from 0 to \<open>2^32 - 2\<close>), by ascending value,
  then every other key in the order of creation.
\<close>

definition digit_value :: "char \<Rightarrow> nat" where
  "digit_value ch = of_char ch - 48"

definition array_index :: "string \<Rightarrow> nat option" where
  "array_index k =
     (let n = foldl (\<lambda>a ch. 10 * a + digit_value ch) 0 k
      in if k \<noteq> [] \<and> set k \<subseteq> set ''0123456789'' \<and> (k = ''0'' \<or> hd k \<noteq> CHR ''0'')
            \<and> n < 4294967295
         then Some n else None)"

fun insert_index :: "nat \<Rightarrow> string \<Rightarrow> 'v \<Rightarrow> (string \<times> 'v) list \<Rightarrow> (string \<times> 'v) list" where
  "insert_index i k v [] = [(k, v)]"
| "insert_index i k v (kv # al) =
     (case array_index (fst kv) of
        Some j \<Rightarrow> if j < i then kv # insert_index i k v al else (k, v) # kv # al
      | None \<Rightarrow> (k, v) # kv # al)"

text \<open>
  \<^verbatim>\<open>table[k] = v\<close>: the value of an existing property is replaced where it stands, a new
  property takes its place in the enumeration order.
\<close>

definition set_property :: "string \<Rightarrow> 'v \<Rightarrow> (string \<times> 'v) list \<Rightarrow> (string \<times> 'v) list" where
  "set_property k v al =
     (if k \<in> fst ` set al then AList.update k v al
      else (case array_index k of
              Some i \<Rightarrow> insert_index i k v al
            | None \<Rightarrow> al @ [(k, v)]))"

text \<open>
  The handler of the socket's \<^verbatim>\<open>close\<close> event. The loop visits every own key of the table,
  in enumeration order.
\<close>

definition cleanup :: "connection \<Rightarrow> state \<Rightarrow> state \<times> effect list" where
  "cleanup c st =
     (st\<lparr>subscriptions := [],
         live := fold (\<lambda>kv. unsubscribe (ref (snd kv))) (subscriptions st) (live st)\<rparr>,
      log c ''Closing WebSocket''
        # map (\<lambda>kv. Cancel (ref (snd kv))) (subscriptions st)
        @ [insertEvent c st ConnectionClosed])"

subsection \<open>The message handler\<close>

text \<open>
  \<^verbatim>\<open>key in subscriptions\<close>: the table is an object literal, so the operator also finds the
  properties it inherits from \<^verbatim>\<open>Object.prototype\<close>.
\<close>

definition object_prototype_keys :: "string list" where
  "object_prototype_keys =
     [''constructor'', ''toString'', ''toLocaleString'', ''valueOf'', ''hasOwnProperty'',
      ''isPrototypeOf'', ''propertyIsEnumerable'', ''__proto__'', ''__defineGetter__'',
      ''__defineSetter__'', ''__lookupGetter__'', ''__lookupSetter__'']"

definition has_property :: "string \<Rightarrow> (string \<times> subscription) list \<Rightarrow> bool" where
  "has_property key table \<longleftrightarrow> key \<in> fst ` set table \<or> key \<in> set object_prototype_keys"

definition not_found :: json where
  "not_found = JObj [(''code'', JNum 404), (''message'', JStr ''Not found'')]"

definition internal_server_error :: json where
  "internal_server_error =
     JObj [(''code'', JStr ''500''), (''message'', JStr ''Internal Server Error'')]"

definition hello :: "connection \<Rightarrow> state \<Rightarrow> json \<Rightarrow> state \<times> effect list \<times> outcome" where
  "hello c st message =
     (case field message ''sessionId'' of
        Some (JStr sid) \<Rightarrow>
          (let st' = st\<lparr>sessionId := Some sid\<rparr>
           in (st', [insertEvent c st' ConnectionOpen, log c (''open session '' @ sid)], Returned))
      | _ \<Rightarrow> (st, [log c ''expected sessionId''], Returned))"

text \<open>
  The part of the \<^verbatim>\<open>subscribe\<close> case after the factory has returned. An array-shaped
  observable is wrapped by \<^verbatim>\<open>Rx.Observable.of\<close>, which calls the observer's \<^verbatim>\<open>next\<close> with the
  array and then its \<^verbatim>\<open>complete\<close> while \<^verbatim>\<open>subscribe\<close> runs, so the subscription stored is
  already closed. Any other observable goes through \<^verbatim>\<open>rewrapBatches\<close>; what it delivers
  arrives later (see \<open>notify\<close>).
\<close>

definition attach ::
  "connection \<Rightarrow> nat \<Rightarrow> state \<Rightarrow> json \<Rightarrow> string \<Rightarrow> int \<Rightarrow> returned
     \<Rightarrow> state \<times> effect list \<times> outcome" where
  "attach c rs st message key subscriptionId observable =
     (if truthy observable \<and> has_subscribe observable then
        (let subscription = \<lparr>ref = next_ref st, name = field message ''name''\<rparr>;
             table = set_property (number_to_string subscriptionId) subscription (subscriptions st)
         in (case array observable of
               Some arr \<Rightarrow>
                 (st\<lparr>subscriptions := table, next_ref := Suc (next_ref st)\<rparr>,
                  fst (createObserver c rs subscriptionId (OnNext arr))
                    @ fst (createObserver c rs subscriptionId OnComplete),
                  Returned)
             | None \<Rightarrow>
                 (st\<lparr>subscriptions := table,
                     live := AList.update (next_ref st) subscriptionId (live st),
                     next_ref := Suc (next_ref st)\<rparr>,
                  [], Returned)))
      else
        (case shown observable of
           None \<Rightarrow> (st, [], Raised TypeError)
         | Some str \<Rightarrow>
             (st,
              ConsoleError (''Expected Rx.Observable instance for key '' @ key @ '', got: '' @ str)
                # send c rs (ErrorEnvelope internal_server_error subscriptionId),
              Returned)))"

definition subscribe ::
  "connection \<Rightarrow> nat \<Rightarrow> state \<Rightarrow> json \<Rightarrow> state \<times> effect list \<times> outcome" where
  "subscribe c rs st message =
     (case field message ''offset'' of
        Some (JNum offset) \<Rightarrow>
          (case field message ''subscriptionId'' of
             Some (JNum subscriptionId) \<Rightarrow>
               (if has_property (number_to_string subscriptionId) (subscriptions st) then
                  (st, [log c (''subscriptionId sent twice: '' @ number_to_string subscriptionId)],
                   Returned)
                else
                  (case to_property_key (field message ''name'') of
                     None \<Rightarrow> (st, [], Raised TypeError)
                   | Some key \<Rightarrow>
                       (case observables c key of
                          Missing \<Rightarrow>
                            (st,
                             log c (''subscribing to '' @ key)
                               # send c rs (ErrorEnvelope not_found subscriptionId),
                             Returned)
                        | NotCallable \<Rightarrow>
                            (st, [log c (''subscribing to '' @ key)], Raised TypeError)
                        | Factory fn \<Rightarrow>
                            (case fn offset (sessionId st) of
                               None \<Rightarrow>
                                 (st,
                                  [log c (''subscribing to '' @ key),
                                   Invoke key offset (sessionId st)],
                                  Raised FactoryError)
                             | Some observable \<Rightarrow>
                                 (case attach c rs st message key subscriptionId observable of
                                    (st', effects, out) \<Rightarrow>
                                      (st',
                                       log c (''subscribing to '' @ key)
                                         # Invoke key offset (sessionId st) # effects,
                                       out))))))
           | _ \<Rightarrow> (st, [log c ''expected subscriptionId string''], Returned))
      | _ \<Rightarrow> (st, [log c ''expected offset number''], Returned))"

text \<open>
  The \<^verbatim>\<open>unsubscribe\<close> case. The \<^verbatim>\<open>in\<close> test comes first and converts whatever
  \<^verbatim>\<open>message.subscriptionId\<close> is to a property key. Reading \<^verbatim>\<open>.name\<close> of an entry the table
  does not own would be a \<^verbatim>\<open>TypeError\<close>.
\<close>

definition unsubscribe_case ::
  "connection \<Rightarrow> state \<Rightarrow> json \<Rightarrow> state \<times> effect list \<times> outcome" where
  "unsubscribe_case c st message =
     (case to_property_key (field message ''subscriptionId'') of
        None \<Rightarrow> (st, [], Raised TypeError)
      | Some key \<Rightarrow>
          (if \<not> has_property key (subscriptions st) then
             (st, [log c (''subscriptionId not found: '' @ key)], Returned)
           else
             (case field message ''subscriptionId'' of
                Some (JNum subscriptionId) \<Rightarrow>
                  (case map_of (subscriptions st) key of
                     None \<Rightarrow> (st, [], Raised TypeError)
                   | Some subscription \<Rightarrow>
                       (case to_property_key (name subscription) of
                          None \<Rightarrow> (st, [], Raised TypeError)
                        | Some str \<Rightarrow>
                            (st\<lparr>subscriptions := AList.delete key (subscriptions st),
                                live := unsubscribe (ref subscription) (live st)\<rparr>,
                             [log c (''unsubscribing from '' @ str), Cancel (ref subscription)],
                             Returned)))
              | _ \<Rightarrow> (st, [log c ''expected subscriptionId number''], Returned))))"

definition onMessage ::
  "connection \<Rightarrow> nat \<Rightarrow> state \<Rightarrow> payload \<Rightarrow> state \<times> effect list \<times> outcome" where
  "onMessage c rs st data =
     (case data of
        Unparseable e \<Rightarrow> (st, [ConsoleError e, log c ''Error parsing JSON''], Returned)
      | Parsed message \<Rightarrow>
          (if message = JNull then (st, [log c ''Error parsing JSON''], Returned)
           else
             (case field message ''type'' of
                Some (JStr t) \<Rightarrow>
                  (if t = ''hello'' then hello c st message
                   else if t = ''subscribe'' then subscribe c rs st message
                   else if t = ''unsubscribe'' then unsubscribe_case c st message
                   else (st, [log c (''Received unknown message type '' @ t)], Returned))
              | _ \<Rightarrow> (st, [log c ''Received message without a type''], Returned))))"

subsection \<open>Deliveries of a subscribed stream\<close>

text \<open>
  The batched stream behind subscription \<open>r\<close> hands a notification to its observer. Rx
  delivers only while the subscription is neither unsubscribed nor terminated, and a
  completion or an error terminates it. The table is not touched.
\<close>

definition notify ::
  "connection \<Rightarrow> nat \<Rightarrow> state \<Rightarrow> nat \<Rightarrow> notification \<Rightarrow> state \<times> effect list \<times> outcome" where
  "notify c rs st r n =
     (case map_of (live st) r of
        None \<Rightarrow> (st, [], Returned)
      | Some subscriptionId \<Rightarrow>
          (case createObserver c rs subscriptionId n of
             (effects, out) \<Rightarrow>
               ((case n of OnNext batch \<Rightarrow> st | _ \<Rightarrow> st\<lparr>live := unsubscribe r (live st)\<rparr>),
                effects, out)))"

subsection \<open>A connection's life\<close>

text \<open>
  What can happen on a connection, each with the socket's \<^verbatim>\<open>readyState\<close> at that moment:
  a frame arrives, the socket closes, a subscribed stream delivers. A run stops at the
  first exception, which leaves the handler for the emitter that called it.
\<close>

datatype event = Message payload | Close | Notify nat notification

fun step :: "connection \<Rightarrow> state \<Rightarrow> nat \<times> event \<Rightarrow> state \<times> effect list \<times> outcome" where
  "step c st (rs, Message data) = onMessage c rs st data"
| "step c st (rs, Close) = (case cleanup c st of (st', effects) \<Rightarrow> (st', effects, Returned))"
| "step c st (rs, Notify r n) = notify c rs st r n"

fun run :: "connection \<Rightarrow> state \<Rightarrow> (nat \<times> event) list \<Rightarrow> state \<times> effect list \<times> outcome" where
  "run c st [] = (st, [], Returned)"
| "run c st (e # es) =
     (case step c st e of
        (st', effects, Raised x) \<Rightarrow> (st', effects, Raised x)
      | (st', effects, Returned) \<Rightarrow>
          (case run c st' es of (st'', effects', out) \<Rightarrow> (st'', effects @ effects', out)))"

text \<open>Projections of a trace.\<close>

definition sent :: "effect list \<Rightarrow> envelope list" where
  "sent effects = concat (map (\<lambda>e. case e of Send v \<Rightarrow> [v] | _ \<Rightarrow> []) effects)"

definition emitted :: "effect list \<Rightarrow> (domain_event \<times> meta) list" where
  "emitted effects = concat (map (\<lambda>e. case e of Emit ev m \<Rightarrow> [(ev, m)] | _ \<Rightarrow> []) effects)"

definition cancelled :: "effect list \<Rightarrow> nat list" where
  "cancelled effects = concat (map (\<lambda>e. case e of Cancel r \<Rightarrow> [r] | _ \<Rightarrow> []) effects)"

definition logged :: "effect list \<Rightarrow> string list" where
  "logged effects =
     concat (map (\<lambda>e. case e of Log s \<Rightarrow> [s] | ConsoleError s \<Rightarrow> [s] | _ \<Rightarrow> []) effects)"

definition invoked :: "effect list \<Rightarrow> (string \<times> int \<times> string option) list" where
  "invoked effects =
     concat (map (\<lambda>e. case e of Invoke k off sid \<Rightarrow> [(k, off, sid)] | _ \<Rightarrow> []) effects)"

section \<open>The batching adapter\<close>

text \<open>
  A raw event source as far as it has run: its items, each with the tick at which the
  source emitted it, and how it ended, if it did.
\<close>

datatype ending = Completes | Fails json

record source =
  items :: "(nat \<times> json) list"
  ending :: "ending option"

text \<open>
  Modelled from the spec: \<^verbatim>\<open>rewrapBatches\<close> is imported from \<^verbatim>\<open>../batches\<close>, a module that is
  not among the sources. The spec (4.3, batching mode) has it group items emitted close
  together in time or volume into batches and leaves the grouping policy open; here the
  policy is a time window and a volume cap. A batch is opened by an item, takes the
  items that follow while they arrive within \<open>window\<close> ticks of the opening one and the
  batch holds fewer than \<open>cap\<close> items, and is delivered when the next item does not fit or
  the source ends; the source's completion or error follows the last batch.
\<close>

fun rebatch :: "nat \<Rightarrow> nat \<Rightarrow> nat \<Rightarrow> json list \<Rightarrow> (nat \<times> json) list \<Rightarrow> json list list" where
  "rebatch window cap t0 batch [] = [batch]"
| "rebatch window cap t0 batch ((t, x) # rest) =
     (if t \<le> t0 + window \<and> length batch < cap
      then rebatch window cap t0 (batch @ [x]) rest
      else batch # rebatch window cap t [x] rest)"

fun batches :: "nat \<Rightarrow> nat \<Rightarrow> (nat \<times> json) list \<Rightarrow> json list list" where
  "batches window cap [] = []"
| "batches window cap ((t, x) # rest) = rebatch window cap t [x] rest"

definition rewrapBatches :: "nat \<Rightarrow> nat \<Rightarrow> source \<Rightarrow> notification list" where
  "rewrapBatches window cap src =
     map OnNext (batches window cap (items src))
       @ (case ending src of
            None \<Rightarrow> []
          | Some Completes \<Rightarrow> [OnComplete]
          | Some (Fails e) \<Rightarrow> [OnError e])"

section \<open>A sample connection\<close>

text \<open>
  What \<^verbatim>\<open>observables[name]\<close> finds when the catalog is an object literal and has no own
  property of that name: the members of \<^verbatim>\<open>Object.prototype\<close>. The handler calls what it finds
  with the offset as first argument and no \<^verbatim>\<open>this\<close>: \<^verbatim>\<open>constructor\<close> wraps the offset in a
  \<^verbatim>\<open>Number\<close> object, \<^verbatim>\<open>toString\<close> returns \<^verbatim>\<open>"[object Undefined]"\<close>, \<^verbatim>\<open>isPrototypeOf\<close> returns
  \<^verbatim>\<open>false\<close>, the others throw a \<^verbatim>\<open>TypeError\<close> on the missing \<^verbatim>\<open>this\<close>; \<^verbatim>\<open>__proto__\<close> is the
  prototype object itself, not a function.
\<close>

definition inherited :: "string \<Rightarrow> catalog_entry" where
  "inherited k =
     (if k = ''__proto__'' then NotCallable
      else if k = ''constructor'' then
        Factory (\<lambda>offset sid. Some \<lparr>truthy = True, has_subscribe = False, array = None,
                                       shown = Some (number_to_string offset)\<rparr>)
      else if k = ''toString'' then
        Factory (\<lambda>offset sid. Some \<lparr>truthy = True, has_subscribe = False, array = None,
                                       shown = Some ''[object Undefined]''\<rparr>)
      else if k = ''isPrototypeOf'' then
        Factory (\<lambda>offset sid. Some \<lparr>truthy = False, has_subscribe = False, array = None,
                                       shown = Some ''false''\<rparr>)
      else if k \<in> set object_prototype_keys then Factory (\<lambda>offset sid. None)
      else Missing)"

text \<open>
  An object-literal catalog with a raw stream (\<^verbatim>\<open>feed\<close>), an array-shaped one
  (\<^verbatim>\<open>snapshot\<close>), a factory that returns a number (\<^verbatim>\<open>broken\<close>), a factory that returns an
  object without a prototype (\<^verbatim>\<open>bare\<close>), an entry that is an object instead of a function
  (\<^verbatim>\<open>config\<close>) and a factory that throws (\<^verbatim>\<open>boom\<close>).
\<close>

definition raw_stream :: returned where
  "raw_stream = \<lparr>truthy = True, has_subscribe = True, array = None,
                  shown = Some ''[object Object]''\<rparr>"

definition array_stream :: "json list \<Rightarrow> returned" where
  "array_stream arr = \<lparr>truthy = True, has_subscribe = True, array = Some arr,
                        shown = Some ''[object Object]''\<rparr>"

definition sample_catalog :: "string \<Rightarrow> catalog_entry" where
  "sample_catalog k =
     (if k = ''feed'' then Factory (\<lambda>offset sid. Some raw_stream)
      else if k = ''snapshot'' then
        Factory (\<lambda>offset sid. Some (array_stream [JStr ''a'', JStr ''b'', JStr ''c'']))
      else if k = ''broken'' then
        Factory (\<lambda>offset sid. Some \<lparr>truthy = True, has_subscribe = False, array = None,
                                       shown = Some ''42''\<rparr>)
      else if k = ''bare'' then
        Factory (\<lambda>offset sid. Some \<lparr>truthy = True, has_subscribe = False, array = None,
                                       shown = None\<rparr>)
      else if k = ''config'' then NotCallable
      else if k = ''boom'' then Factory (\<lambda>offset sid. None)
      else inherited k)"

definition sample :: connection where
  "sample = \<lparr>observables = sample_catalog, connectionId = ''c1'',
             xForwardedFor = None, remoteAddress = ''10.0.0.7''\<rparr>"

definition subscribe_message :: "int \<Rightarrow> string \<Rightarrow> int \<Rightarrow> json" where
  "subscribe_message subscriptionId nm offset =
     JObj [(''type'', JStr ''subscribe''), (''subscriptionId'', JNum subscriptionId),
           (''name'', JStr nm), (''offset'', JNum offset)]"

text \<open>
  The state after a \<^verbatim>\<open>hello\<close> and two subscriptions to \<^verbatim>\<open>feed\<close>, under ids 1 and 2.
\<close>

definition two_feeds :: state where
  "two_feeds =
     \<lparr>sessionId = Some ''s1'',
      subscriptions = [(''1'', \<lparr>ref = 0, name = Some (JStr ''feed'')\<rparr>),
                       (''2'', \<lparr>ref = 1, name = Some (JStr ''feed'')\<rparr>)],
      live = [(0, 1), (1, 2)],
      next_ref = 2\<rparr>"

text \<open>A source that emits two items in one tick, a third five ticks later, and completes.\<close>

definition sample_source :: source where
  "sample_source = \<lparr>items = [(0, JNum 1), (0, JNum 2), (5, JNum 3)], ending = Some Completes\<rparr>"

section \<open>Reading a trace\<close>

lemma sent_simps [simp]:
  "sent [] = []" "sent (Send v # es) = v # sent es" "sent (Log s # es) = sent es"
  "sent (ConsoleError s # es) = sent es" "sent (Emit ev m # es) = sent es"
  "sent (Invoke k off sid # es) = sent es" "sent (Cancel r # es) = sent es"
  "sent (es @ es') = sent es @ sent es'"
  by (simp_all add: sent_def)

lemma emitted_simps [simp]:
  "emitted [] = []" "emitted (Send v # es) = emitted es" "emitted (Log s # es) = emitted es"
  "emitted (ConsoleError s # es) = emitted es" "emitted (Emit ev m # es) = (ev, m) # emitted es"
  "emitted (Invoke k off sid # es) = emitted es" "emitted (Cancel r # es) = emitted es"
  "emitted (es @ es') = emitted es @ emitted es'"
  by (simp_all add: emitted_def)

lemma cancelled_simps [simp]:
  "cancelled [] = []" "cancelled (Send v # es) = cancelled es" "cancelled (Log s # es) = cancelled es"
  "cancelled (ConsoleError s # es) = cancelled es" "cancelled (Emit ev m # es) = cancelled es"
  "cancelled (Invoke k off sid # es) = cancelled es" "cancelled (Cancel r # es) = r # cancelled es"
  "cancelled (es @ es') = cancelled es @ cancelled es'"
  by (simp_all add: cancelled_def)

lemma logged_simps [simp]:
  "logged [] = []" "logged (Send v # es) = logged es" "logged (Log s # es) = s # logged es"
  "logged (ConsoleError s # es) = s # logged es" "logged (Emit ev m # es) = logged es"
  "logged (Invoke k off sid # es) = logged es" "logged (Cancel r # es) = logged es"
  "logged (es @ es') = logged es @ logged es'"
  by (simp_all add: logged_def)

lemma invoked_simps [simp]:
  "invoked [] = []" "invoked (Send v # es) = invoked es" "invoked (Log s # es) = invoked es"
  "invoked (ConsoleError s # es) = invoked es" "invoked (Emit ev m # es) = invoked es"
  "invoked (Invoke k off sid # es) = (k, off, sid) # invoked es" "invoked (Cancel r # es) = invoked es"
  "invoked (es @ es') = invoked es @ invoked es'"
  by (simp_all add: invoked_def)

lemma projections_log [simp]:
  "sent [log c s] = []" "emitted [log c s] = []" "cancelled [log c s] = []"
  "invoked [log c s] = []" "logged [log c s] \<noteq> []"
  "sent (log c s # es) = sent es" "emitted (log c s # es) = emitted es"
  "cancelled (log c s # es) = cancelled es" "invoked (log c s # es) = invoked es"
  by (simp_all add: log_def)

lemma cancelled_map_Cancel: "cancelled (map (\<lambda>kv. Cancel (f kv)) xs) = map f xs"
  by (induction xs) simp_all

lemma sent_map_Cancel: "sent (map (\<lambda>kv. Cancel (f kv)) xs) = []"
  by (induction xs) simp_all

lemma emitted_map_Cancel: "emitted (map (\<lambda>kv. Cancel (f kv)) xs) = []"
  by (induction xs) simp_all

lemma live_after_cancelling:
  "map_of (fold (\<lambda>kv. unsubscribe (ref (snd kv))) table lv) r =
     (if r \<in> (\<lambda>kv. ref (snd kv)) ` set table then None else map_of lv r)"
  unfolding unsubscribe_def
proof (induction table arbitrary: lv)
  case Nil
  then show ?case by simp
next
  case (Cons kv table)
  show ?case
    by (simp add: Cons.IH delete_conv')
qed

lemma notify_not_live:
  "map_of (live st) r = None \<Longrightarrow> notify c rs st r n = (st, [], Returned)"
  by (simp add: notify_def)

lemma run_notify_not_live:
  "\<forall>e \<in> set es. \<exists>r n. snd e = Notify r n \<and> map_of (live st) r = None
     \<Longrightarrow> run c st es = (st, [], Returned)"
proof (induction es)
  case Nil
  then show ?case by simp
next
  case (Cons e es)
  obtain rs ev where e: "e = (rs, ev)" by (cases e)
  from Cons.prems e obtain r n where ev: "ev = Notify r n" and dead: "map_of (live st) r = None"
    by auto
  have "run c st es = (st, [], Returned)"
    using Cons by simp
  then show ?case
    by (simp add: e ev notify_not_live [OF dead])
qed

lemma in_update: "kv \<in> set (AList.update k v al) \<Longrightarrow> kv = (k, v) \<or> kv \<in> set al"
  by (induction al) (auto split: if_splits)

lemma in_insert_index:
  "kv \<in> set (insert_index i k v al) \<Longrightarrow> kv = (k, v) \<or> kv \<in> set al"
  by (induction al) (auto split: option.splits if_splits)

lemma in_set_property:
  "kv \<in> set (set_property k v al) \<Longrightarrow> kv = (k, v) \<or> kv \<in> set al"
  by (auto simp add: set_property_def dest: in_update in_insert_index
        split: if_splits option.splits)

lemma map_of_insert_index:
  "k \<notin> fst ` set al \<Longrightarrow>
   map_of (insert_index i k v al) k' = (if k' = k then Some v else map_of al k')"
  by (induction al) (auto split: option.splits)

lemma map_of_set_property:
  "map_of (set_property k v al) k' = (if k' = k then Some v else map_of al k')"
proof (cases "k \<in> fst ` set al")
  case True
  then show ?thesis
    by (simp add: set_property_def update_conv')
next
  case False
  then have "map_of al k = None"
    by (simp add: map_of_eq_None_iff)
  with False show ?thesis
    by (auto simp add: set_property_def map_of_insert_index map_add_def
          split: option.splits)
qed

lemmas sample_defs =
  sample_def sample_catalog_def inherited_def raw_stream_def array_stream_def
  subscribe_message_def two_feeds_def initial_def

lemmas handler_defs =
  onMessage_def hello_def subscribe_def attach_def unsubscribe_case_def notify_def cleanup_def
  unsubscribe_def has_property_def object_prototype_keys_def insertEvent_def send_def log_def
  remoteAddr_def number_to_string_def digit_def not_found_def internal_server_error_def
  set_property_def array_index_def digit_value_def

lemma two_feeds_reached:
  "run sample initial
     [(1, Message (Parsed (JObj [(''type'', JStr ''hello''), (''sessionId'', JStr ''s1'')]))),
      (1, Message (Parsed (subscribe_message 1 ''feed'' 0))),
      (1, Message (Parsed (subscribe_message 2 ''feed'' 0)))]
   = (two_feeds,
      [Emit ConnectionOpen \<lparr>meta_connectionId = ''c1'', meta_sessionId = Some ''s1'',
                             meta_ipAddress = ''10.0.0.7''\<rparr>,
       Log ''[10.0.0.7] open session s1'',
       Log ''[10.0.0.7] subscribing to feed'', Invoke ''feed'' 0 (Some ''s1''),
       Log ''[10.0.0.7] subscribing to feed'', Invoke ''feed'' 0 (Some ''s1'')],
      Returned)"
  by (simp add: sample_defs handler_defs digits.simps)

text \<open>
  The order of the loop in \<open>cleanup\<close>: after subscribes under the ids 2, -1 and 1, in this
  order, the close cancels the subscription under 1, then the one under 2, then the one
  under -1.
\<close>

lemma cleanup_enumeration_order:
  "run sample initial
     [(1, Message (Parsed (subscribe_message 2 ''feed'' 0))),
      (1, Message (Parsed (subscribe_message (-1) ''feed'' 0))),
      (1, Message (Parsed (subscribe_message 1 ''feed'' 0))),
      (3, Close)]
   = (\<lparr>sessionId = None, subscriptions = [], live = [], next_ref = 3\<rparr>,
      [Log ''[10.0.0.7] subscribing to feed'', Invoke ''feed'' 0 None,
       Log ''[10.0.0.7] subscribing to feed'', Invoke ''feed'' 0 None,
       Log ''[10.0.0.7] subscribing to feed'', Invoke ''feed'' 0 None,
       Log ''[10.0.0.7] Closing WebSocket'', Cancel 2, Cancel 0, Cancel 1,
       Emit ConnectionClosed \<lparr>meta_connectionId = ''c1'', meta_sessionId = None,
                               meta_ipAddress = ''10.0.0.7''\<rparr>],
      Returned)"
  by (simp add: sample_defs handler_defs digits.simps)

section \<open>Connection close\<close>

text \<open>
  C6. When the socket closes with K subscriptions in the table, \<open>cleanup\<close> calls
  \<^verbatim>\<open>unsubscribe\<close> on each of the K, leaves the table empty, emits exactly one
  \<^verbatim>\<open>connection-closed\<close> domain event and writes nothing to the socket; whatever the
  cancelled streams try to deliver afterwards reaches no observer, so no envelope
  follows for any of them.
\<close>

theorem cleanup_cancels_all:
  assumes "cleanup c st = (st', effects)"
  shows "cancelled effects = map (\<lambda>kv. ref (snd kv)) (subscriptions st)
       \<and> length (cancelled effects) = length (subscriptions st)
       \<and> subscriptions st' = []
       \<and> emitted effects =
           [(ConnectionClosed, \<lparr>meta_connectionId = connectionId c, meta_sessionId = sessionId st,
                                 meta_ipAddress = remoteAddr c\<rparr>)]
       \<and> sent effects = []
       \<and> (\<forall>es. (\<forall>e \<in> set es. \<exists>r n. snd e = Notify r n \<and> r \<in> set (cancelled effects))
              \<longrightarrow> run c st' es = (st', [], Returned))"
proof -
  have st': "st' = st\<lparr>subscriptions := [],
         live := fold (\<lambda>kv. unsubscribe (ref (snd kv))) (subscriptions st) (live st)\<rparr>"
    and effects: "effects = log c ''Closing WebSocket''
        # map (\<lambda>kv. Cancel (ref (snd kv))) (subscriptions st)
        @ [insertEvent c st ConnectionClosed]"
    using assms by (simp_all add: cleanup_def)
  have c: "cancelled effects = map (\<lambda>kv. ref (snd kv)) (subscriptions st)"
    by (simp add: effects cancelled_map_Cancel insertEvent_def)
  have e: "emitted effects =
           [(ConnectionClosed, \<lparr>meta_connectionId = connectionId c, meta_sessionId = sessionId st,
                                 meta_ipAddress = remoteAddr c\<rparr>)]"
    by (simp add: effects emitted_map_Cancel insertEvent_def)
  have s: "sent effects = []"
    by (simp add: effects sent_map_Cancel insertEvent_def)
  have dead: "map_of (live st') r = None" if "r \<in> set (cancelled effects)" for r
    using that by (simp add: c st' live_after_cancelling)
  have later: "run c st' es = (st', [], Returned)"
    if "\<forall>e \<in> set es. \<exists>r n. snd e = Notify r n \<and> r \<in> set (cancelled effects)" for es
    by (rule run_notify_not_live) (use that dead in blast)
  show ?thesis
    using c e s later by (simp add: st')
qed

theorem cleanup_cancels_all_witness:
  "cancelled (snd (cleanup sample two_feeds)) = [0, 1]
   \<and> subscriptions (fst (cleanup sample two_feeds)) = []
   \<and> run sample (fst (cleanup sample two_feeds))
        [(1, Notify 0 (OnNext [JNum 7])), (1, Notify 1 OnComplete)]
      = (fst (cleanup sample two_feeds), [], Returned)"
proof -
  have c: "cleanup sample two_feeds = (fst (cleanup sample two_feeds), snd (cleanup sample two_feeds))"
    by simp
  have k: "cancelled (snd (cleanup sample two_feeds)) = [0, 1]"
    using cleanup_cancels_all [OF c] by (simp add: two_feeds_def)
  have "\<forall>e \<in> set [(1::nat, Notify 0 (OnNext [JNum 7])), (1, Notify 1 OnComplete)].
          \<exists>r n. snd e = Notify r n \<and> r \<in> set (cancelled (snd (cleanup sample two_feeds)))"
    by (simp add: k)
  with cleanup_cancels_all [OF c] k show ?thesis
    by blast
qed

text \<open>
  C7 as the spec has it: \<open>cleanup\<close> on an empty table is a no-op that emits no domain
  event. The source logs and calls \<^verbatim>\<open>insertEvent\<close> outside the loop, whatever the table
  holds: on the initial state one \<^verbatim>\<open>connection-closed\<close> event is emitted.
\<close>

theorem cleanup_empty_table_emits:
  "subscriptions initial = []
   \<and> emitted (snd (cleanup sample initial)) =
       [(ConnectionClosed, \<lparr>meta_connectionId = ''c1'', meta_sessionId = None,
                             meta_ipAddress = ''10.0.0.7''\<rparr>)]"
  by (simp add: sample_defs handler_defs)

text \<open>
  C7, amended. \<open>cleanup\<close> on an empty table cancels nothing, sends no envelope and
  leaves the state as it is, and it still writes its log line and emits exactly one
  \<^verbatim>\<open>connection-closed\<close> domain event.
\<close>

theorem cleanup_empty_table:
  assumes "subscriptions st = []"
    and "cleanup c st = (st', effects)"
  shows "st' = st
       \<and> cancelled effects = []
       \<and> sent effects = []
       \<and> effects = [Log (''['' @ remoteAddr c @ ''] Closing WebSocket''),
                    Emit ConnectionClosed
                      \<lparr>meta_connectionId = connectionId c, meta_sessionId = sessionId st,
                       meta_ipAddress = remoteAddr c\<rparr>]"
  using assms by (auto simp add: cleanup_def log_def insertEvent_def)

theorem cleanup_empty_table_witness:
  "subscriptions initial = []
   \<and> fst (cleanup sample initial) = initial
   \<and> snd (cleanup sample initial) =
       [Log ''[10.0.0.7] Closing WebSocket'',
        Emit ConnectionClosed \<lparr>meta_connectionId = ''c1'', meta_sessionId = None,
                               meta_ipAddress = ''10.0.0.7''\<rparr>]"
proof -
  have e: "subscriptions initial = []"
    by (simp add: initial_def)
  have c: "cleanup sample initial = (fst (cleanup sample initial), snd (cleanup sample initial))"
    by simp
  show ?thesis
    using cleanup_empty_table [OF e c] e by (simp add: sample_def remoteAddr_def initial_def)
qed

section \<open>Property keys and dispatch\<close>

text \<open>
  The decimal rendering of a number starts with a digit or a minus sign, so it is never
  one of the names a table inherits: for a numeric \<^verbatim>\<open>subscriptionId\<close> the \<^verbatim>\<open>in\<close> test is
  membership in the table.
\<close>

lemma digit_in: "digit d \<in> set ''0123456789''"
proof -
  have "d mod 10 < length ''0123456789''" by simp
  then show ?thesis unfolding digit_def by (rule nth_mem)
qed

lemma digits_head: "digits n \<noteq> [] \<and> hd (digits n) \<in> set ''0123456789''"
proof (induction n rule: digits.induct)
  case (1 n)
  show ?case
  proof (cases "n < 10")
    case True
    then show ?thesis using digit_in [of n] by (simp add: digits.simps [of n])
  next
    case False
    with 1 show ?thesis by (simp add: digits.simps [of n])
  qed
qed

lemma number_to_string_head:
  "number_to_string i \<noteq> [] \<and> hd (number_to_string i) \<in> set ''-0123456789''"
  using digits_head [of "nat i"] by (auto simp add: number_to_string_def)

lemma number_not_inherited: "number_to_string i \<notin> set object_prototype_keys"
proof
  assume "number_to_string i \<in> set object_prototype_keys"
  then have "hd (number_to_string i) \<in> hd ` set object_prototype_keys"
    by (rule imageI)
  then have "hd (number_to_string i) \<in> set ''ctvhip_''"
    by (simp add: object_prototype_keys_def)
  with number_to_string_head [of i] show False
    by auto
qed

lemma has_property_number [simp]:
  "has_property (number_to_string i) table \<longleftrightarrow> number_to_string i \<in> fst ` set table"
  by (simp add: has_property_def number_not_inherited)

lemma onMessage_typed:
  "field message ''type'' = Some (JStr t) \<Longrightarrow>
   onMessage c rs st (Parsed message) =
     (if t = ''hello'' then hello c st message
      else if t = ''subscribe'' then subscribe c rs st message
      else if t = ''unsubscribe'' then unsubscribe_case c st message
      else (st, [log c (''Received unknown message type '' @ t)], Returned))"
  by (auto simp add: onMessage_def)

lemma subscribe_duplicate:
  assumes "field message ''offset'' = Some (JNum offset)"
    and "field message ''subscriptionId'' = Some (JNum subscriptionId)"
    and "number_to_string subscriptionId \<in> fst ` set (subscriptions st)"
  shows "subscribe c rs st message =
     (st, [log c (''subscriptionId sent twice: '' @ number_to_string subscriptionId)], Returned)"
  using assms by (simp add: subscribe_def)

lemma subscribe_factory:
  assumes "field message ''offset'' = Some (JNum offset)"
    and "field message ''subscriptionId'' = Some (JNum subscriptionId)"
    and "number_to_string subscriptionId \<notin> fst ` set (subscriptions st)"
    and "to_property_key (field message ''name'') = Some key"
    and "observables c key = Factory fn"
    and "fn offset (sessionId st) = Some observable"
  shows "subscribe c rs st message =
     (case attach c rs st message key subscriptionId observable of
        (st', effects, out) \<Rightarrow>
          (st', log c (''subscribing to '' @ key) # Invoke key offset (sessionId st) # effects, out))"
  using assms by (simp add: subscribe_def)

section \<open>Subscribing\<close>

text \<open>
  C3 as the spec has it: a subscribe to a name the catalog lacks sends exactly one
  envelope. Every write goes through \<open>send\<close>, which writes only to a socket whose
  \<^verbatim>\<open>readyState\<close> is 1: on a socket that is closing (2) the same message is logged,
  the write is dropped and logged, and nothing is sent.
\<close>

theorem unknown_name_closed_socket:
  "field (subscribe_message 1 ''nope'' 0) ''offset'' = Some (JNum 0)
   \<and> field (subscribe_message 1 ''nope'' 0) ''subscriptionId'' = Some (JNum 1)
   \<and> \<not> has_property (number_to_string 1) (subscriptions initial)
   \<and> observables sample ''nope'' = Missing
   \<and> onMessage sample 2 initial (Parsed (subscribe_message 1 ''nope'' 0))
     = (initial,
        [Log ''[10.0.0.7] subscribing to nope'',
         Log ''[10.0.0.7] Tried to send to WebSocket in readyState: 2''],
        Returned)"
  by (simp add: sample_defs handler_defs digits.simps)

text \<open>
  The lookup of line 123 is \<^verbatim>\<open>observables[message.name]\<close>: it converts the name to a
  property key, which a name holding an object with an own \<^verbatim>\<open>toString\<close> property does not
  survive, and it finds what the catalog object inherits as well as what it owns.
\<close>

lemma lookup_of_name:
  "onMessage sample 1 initial
     (Parsed (JObj [(''type'', JStr ''subscribe''), (''subscriptionId'', JNum 1),
                    (''name'', JObj [(''toString'', JNum 1)]), (''offset'', JNum 0)]))
     = (initial, [], Raised TypeError)"
  "onMessage sample 1 initial (Parsed (subscribe_message 1 ''toString'' 0))
     = (initial,
        [Log ''[10.0.0.7] subscribing to toString'', Invoke ''toString'' 0 None,
         ConsoleError ''Expected Rx.Observable instance for key toString, got: [object Undefined]'',
         Send (ErrorEnvelope
                 (JObj [(''code'', JStr ''500''), (''message'', JStr ''Internal Server Error'')]) 1)],
        Returned)"
  "onMessage sample 1 initial (Parsed (subscribe_message 1 ''__proto__'' 0))
     = (initial, [Log ''[10.0.0.7] subscribing to __proto__''], Raised TypeError)"
  by (simp_all add: sample_defs handler_defs digits.simps)

text \<open>
  C3, amended. For a subscribe message with numeric \<^verbatim>\<open>offset\<close> and numeric
  \<^verbatim>\<open>subscriptionId\<close> not in the table, whose \<^verbatim>\<open>name\<close> converts to a property key (a missing
  name to \<^verbatim>\<open>"undefined"\<close>) under which the lookup in the catalog finds nothing, neither own
  nor inherited, or a falsy value: on an open socket exactly one envelope is sent,
  \<^verbatim>\<open>error{subscriptionId, code: 404, message: "Not found"}\<close>; on a socket that is not open
  nothing is sent and the dropped write is logged; either way the state, and with it the
  table, is unchanged.
\<close>

theorem unknown_name_404:
  assumes "field message ''type'' = Some (JStr ''subscribe'')"
    and "field message ''offset'' = Some (JNum offset)"
    and "field message ''subscriptionId'' = Some (JNum subscriptionId)"
    and "number_to_string subscriptionId \<notin> fst ` set (subscriptions st)"
    and "to_property_key (field message ''name'') = Some key"
    and "observables c key = Missing"
    and "onMessage c rs st (Parsed message) = (st', effects, out)"
  shows "st' = st \<and> out = Returned
       \<and> sent effects = (if rs = 1 then [ErrorEnvelope not_found subscriptionId] else [])
       \<and> (rs \<noteq> 1 \<longrightarrow> Log (''['' @ remoteAddr c @ ''] Tried to send to WebSocket in readyState: ''
                               @ digits rs) \<in> set effects)"
proof -
  have "message \<noteq> JNull"
    using assms(1) by auto
  then have "onMessage c rs st (Parsed message) = subscribe c rs st message"
    using assms(1) by (simp add: onMessage_def)
  also have "\<dots> = (st, log c (''subscribing to '' @ key)
                        # send c rs (ErrorEnvelope not_found subscriptionId), Returned)"
    using assms(2-6) by (simp add: subscribe_def)
  finally show ?thesis
    using assms(7) by (auto simp add: send_def log_def)
qed

theorem unknown_name_404_witness:
  "onMessage sample 1 two_feeds (Parsed (subscribe_message 3 ''nope'' 0))
     = (two_feeds,
        [Log ''[10.0.0.7] subscribing to nope'',
         Send (ErrorEnvelope (JObj [(''code'', JNum 404), (''message'', JStr ''Not found'')]) 3)],
        Returned)"
proof -
  have e: "onMessage sample 1 two_feeds (Parsed (subscribe_message 3 ''nope'' 0))
     = (two_feeds,
        [Log ''[10.0.0.7] subscribing to nope'',
         Send (ErrorEnvelope (JObj [(''code'', JNum 404), (''message'', JStr ''Not found'')]) 3)],
        Returned)"
    by (simp add: sample_defs handler_defs digits.simps)
  have "field (subscribe_message 3 ''nope'' 0) ''type'' = Some (JStr ''subscribe'')"
    and "field (subscribe_message 3 ''nope'' 0) ''offset'' = Some (JNum 0)"
    and "field (subscribe_message 3 ''nope'' 0) ''subscriptionId'' = Some (JNum 3)"
    and "number_to_string 3 \<notin> fst ` set (subscriptions two_feeds)"
    and "to_property_key (field (subscribe_message 3 ''nope'' 0) ''name'') = Some ''nope''"
    and "observables sample ''nope'' = Missing"
    by (simp_all add: sample_defs object_prototype_keys_def number_to_string_def digits.simps
        digit_def)
  from unknown_name_404 [OF this e] e show ?thesis
    by simp
qed

text \<open>
  C4 as the spec has it: a factory result without a \<^verbatim>\<open>subscribe\<close> function is answered
  with exactly one envelope \<^verbatim>\<open>error{subscriptionId, code: 500, message: "Internal Server
  Error"}\<close>. On a closing socket \<open>send\<close> writes nothing. On an open one the envelope sent
  has the string \<^verbatim>\<open>'500'\<close> as its code, where the 404 of the neighbouring branch is a
  number.
\<close>

theorem non_stream_closed_socket_and_code:
  "onMessage sample 2 initial (Parsed (subscribe_message 1 ''broken'' 0))
     = (initial,
        [Log ''[10.0.0.7] subscribing to broken'', Invoke ''broken'' 0 None,
         ConsoleError ''Expected Rx.Observable instance for key broken, got: 42'',
         Log ''[10.0.0.7] Tried to send to WebSocket in readyState: 2''],
        Returned)
   \<and> sent (fst (snd (onMessage sample 1 initial (Parsed (subscribe_message 1 ''broken'' 0)))))
     = [ErrorEnvelope (JObj [(''code'', JStr ''500''), (''message'', JStr ''Internal Server Error'')]) 1]
   \<and> ErrorEnvelope (JObj [(''code'', JStr ''500''), (''message'', JStr ''Internal Server Error'')]) 1
     \<noteq> ErrorEnvelope (JObj [(''code'', JNum 500), (''message'', JStr ''Internal Server Error'')]) 1
   \<and> sent (fst (snd (onMessage sample 1 initial (Parsed (subscribe_message 1 ''nope'' 0)))))
     = [ErrorEnvelope (JObj [(''code'', JNum 404), (''message'', JStr ''Not found'')]) 1]"
  by (simp add: sample_defs handler_defs digits.simps)

text \<open>
  The error line of line 149 interpolates the value the factory returned. A value
  without a string rendering, such as an object without a prototype, makes the
  template literal throw: nothing reaches \<^verbatim>\<open>console.error\<close> and nothing is sent.
\<close>

lemma unrenderable_non_stream:
  "onMessage sample 1 initial (Parsed (subscribe_message 1 ''bare'' 0))
     = (initial, [Log ''[10.0.0.7] subscribing to bare'', Invoke ''bare'' 0 None],
        Raised TypeError)"
  by (simp add: sample_defs handler_defs digits.simps)

text \<open>
  C4, amended. For a subscribe message with numeric \<^verbatim>\<open>offset\<close> and numeric
  \<^verbatim>\<open>subscriptionId\<close> not in the table, whose \<^verbatim>\<open>name\<close> converts to a property key under which
  the catalog holds a function, when that function returns a value that is falsy or has
  no \<^verbatim>\<open>subscribe\<close> function and that has a string rendering: the failure is written to
  \<^verbatim>\<open>console.error\<close>, the state is unchanged, and on an open socket exactly one envelope is
  sent, an error for the \<^verbatim>\<open>subscriptionId\<close> with the message "Internal Server Error"; on a
  socket that is not open nothing is sent and the dropped write is logged. What the
  envelope's \<^verbatim>\<open>code\<close> is, is left open here.
\<close>

theorem non_stream_reported:
  assumes "field message ''type'' = Some (JStr ''subscribe'')"
    and "field message ''offset'' = Some (JNum offset)"
    and "field message ''subscriptionId'' = Some (JNum subscriptionId)"
    and "number_to_string subscriptionId \<notin> fst ` set (subscriptions st)"
    and "to_property_key (field message ''name'') = Some key"
    and "observables c key = Factory fn"
    and "fn offset (sessionId st) = Some observable"
    and "\<not> (truthy observable \<and> has_subscribe observable)"
    and "shown observable = Some str"
    and "onMessage c rs st (Parsed message) = (st', effects, out)"
  shows "st' = st \<and> out = Returned
       \<and> ConsoleError (''Expected Rx.Observable instance for key '' @ key @ '', got: '' @ str)
           \<in> set effects
       \<and> (if rs = 1
          then \<exists>error. sent effects = [ErrorEnvelope error subscriptionId]
                 \<and> field error ''message'' = Some (JStr ''Internal Server Error'')
          else sent effects = []
             \<and> Log (''['' @ remoteAddr c @ ''] Tried to send to WebSocket in readyState: ''
                      @ digits rs) \<in> set effects)"
proof -
  have "onMessage c rs st (Parsed message) = subscribe c rs st message"
    using assms(1) by (simp add: onMessage_typed)
  also have "\<dots> =
      (case attach c rs st message key subscriptionId observable of
        (st', effects, out) \<Rightarrow>
          (st', log c (''subscribing to '' @ key) # Invoke key offset (sessionId st) # effects, out))"
    using assms(2-7) by (rule subscribe_factory)
  also have "attach c rs st message key subscriptionId observable =
      (st,
       ConsoleError (''Expected Rx.Observable instance for key '' @ key @ '', got: '' @ str)
         # send c rs (ErrorEnvelope internal_server_error subscriptionId),
       Returned)"
    using assms(8,9) by (auto simp add: attach_def)
  finally have "st' = st" "out = Returned"
    and e: "effects = log c (''subscribing to '' @ key) # Invoke key offset (sessionId st)
        # ConsoleError (''Expected Rx.Observable instance for key '' @ key @ '', got: '' @ str)
        # send c rs (ErrorEnvelope internal_server_error subscriptionId)"
    using assms(10) by simp_all
  moreover have "field internal_server_error ''message'' = Some (JStr ''Internal Server Error'')"
    by (simp add: internal_server_error_def)
  ultimately show ?thesis
    by (auto simp add: send_def log_def)
qed

theorem non_stream_reported_witness:
  "onMessage sample 1 two_feeds (Parsed (subscribe_message 3 ''broken'' 0))
     = (two_feeds,
        [Log ''[10.0.0.7] subscribing to broken'', Invoke ''broken'' 0 (Some ''s1''),
         ConsoleError ''Expected Rx.Observable instance for key broken, got: 42'',
         Send (ErrorEnvelope
                 (JObj [(''code'', JStr ''500''), (''message'', JStr ''Internal Server Error'')]) 3)],
        Returned)"
proof -
  let ?v = "\<lparr>truthy = True, has_subscribe = False, array = None, shown = Some ''42''\<rparr>"
  have e: "onMessage sample 1 two_feeds (Parsed (subscribe_message 3 ''broken'' 0))
     = (two_feeds,
        [Log ''[10.0.0.7] subscribing to broken'', Invoke ''broken'' 0 (Some ''s1''),
         ConsoleError ''Expected Rx.Observable instance for key broken, got: 42'',
         Send (ErrorEnvelope
                 (JObj [(''code'', JStr ''500''), (''message'', JStr ''Internal Server Error'')]) 3)],
        Returned)"
    by (simp add: sample_defs handler_defs digits.simps)
  have "field (subscribe_message 3 ''broken'' 0) ''type'' = Some (JStr ''subscribe'')"
    and "field (subscribe_message 3 ''broken'' 0) ''offset'' = Some (JNum 0)"
    and "field (subscribe_message 3 ''broken'' 0) ''subscriptionId'' = Some (JNum 3)"
    and "number_to_string 3 \<notin> fst ` set (subscriptions two_feeds)"
    and "to_property_key (field (subscribe_message 3 ''broken'' 0) ''name'') = Some ''broken''"
    and "observables sample ''broken'' = Factory (\<lambda>offset sid. Some ?v)"
    and "(\<lambda>offset sid. Some ?v) 0 (sessionId two_feeds) = Some ?v"
    and "\<not> (truthy ?v \<and> has_subscribe ?v)"
    and "shown ?v = Some ''42''"
    by (simp_all add: sample_defs number_to_string_def digits.simps digit_def)
  from non_stream_reported [OF this e] e show ?thesis
    by simp
qed

section \<open>Termination of a stream\<close>




text \<open>
  An error value without a string rendering: \<^verbatim>\<open>log(error)\<close> throws in the template literal
  of line 26, before anything is logged or sent, and the subscription is terminated all
  the same.
\<close>

lemma unrenderable_error:
  "notify sample 1 two_feeds 0 (OnError (JObj [(''toString'', JNull)]))
     = (two_feeds\<lparr>live := [(1, 2)]\<rparr>, [], Raised TypeError)"
  by (simp add: sample_defs handler_defs)

section \<open>Array-shaped sources\<close>

text \<open>
  C9. When the factory returns an observable whose \<^verbatim>\<open>array\<close> property is an array, the
  observer created for the subscription is handed exactly that array, once, and then the
  completion, while the subscribe message is being handled; on an open socket that is
  one \<^verbatim>\<open>events\<close> envelope with the full array followed by \<^verbatim>\<open>complete\<close>. Nothing is left
  to deliver later: no batching is set up for the subscription.
\<close>

theorem array_source_single_batch:
  assumes "field message ''type'' = Some (JStr ''subscribe'')"
    and "field message ''offset'' = Some (JNum offset)"
    and "field message ''subscriptionId'' = Some (JNum subscriptionId)"
    and "number_to_string subscriptionId \<notin> fst ` set (subscriptions st)"
    and "to_property_key (field message ''name'') = Some key"
    and "observables c key = Factory fn"
    and "fn offset (sessionId st) = Some observable"
    and "truthy observable \<and> has_subscribe observable"
    and "array observable = Some arr"
    and "onMessage c rs st (Parsed message) = (st', effects, out)"
  shows "out = Returned
       \<and> effects =
           [log c (''subscribing to '' @ key), Invoke key offset (sessionId st)]
             @ fst (createObserver c rs subscriptionId (OnNext arr))
             @ fst (createObserver c rs subscriptionId OnComplete)
       \<and> (rs = 1 \<longrightarrow> sent effects = [Events arr subscriptionId, Complete subscriptionId])
       \<and> live st' = live st
       \<and> map_of (subscriptions st') (number_to_string subscriptionId)
           = Some \<lparr>ref = next_ref st, name = field message ''name''\<rparr>"
proof -
  have "onMessage c rs st (Parsed message) = subscribe c rs st message"
    using assms(1) by (simp add: onMessage_typed)
  also have "\<dots> =
      (case attach c rs st message key subscriptionId observable of
        (st', effects, out) \<Rightarrow>
          (st', log c (''subscribing to '' @ key) # Invoke key offset (sessionId st) # effects, out))"
    using assms(2-7) by (rule subscribe_factory)
  also have "attach c rs st message key subscriptionId observable =
      (st\<lparr>subscriptions :=
             set_property (number_to_string subscriptionId)
               \<lparr>ref = next_ref st, name = field message ''name''\<rparr> (subscriptions st),
           next_ref := Suc (next_ref st)\<rparr>,
       fst (createObserver c rs subscriptionId (OnNext arr))
         @ fst (createObserver c rs subscriptionId OnComplete),
       Returned)"
    using assms(8,9) by (simp add: attach_def)
  finally have "st' = st\<lparr>subscriptions :=
             set_property (number_to_string subscriptionId)
               \<lparr>ref = next_ref st, name = field message ''name''\<rparr> (subscriptions st),
           next_ref := Suc (next_ref st)\<rparr>"
    and e: "effects =
           [log c (''subscribing to '' @ key), Invoke key offset (sessionId st)]
             @ fst (createObserver c rs subscriptionId (OnNext arr))
             @ fst (createObserver c rs subscriptionId OnComplete)"
    and "out = Returned"
    using assms(10) by simp_all
  moreover have "rs = 1 \<longrightarrow> sent effects = [Events arr subscriptionId, Complete subscriptionId]"
    by (simp add: e send_def)
  ultimately show ?thesis
    by (simp add: map_of_set_property)
qed

theorem array_source_single_batch_witness:
  "onMessage sample 1 initial (Parsed (subscribe_message 4 ''snapshot'' 0))
     = (\<lparr>sessionId = None,
         subscriptions = [(''4'', \<lparr>ref = 0, name = Some (JStr ''snapshot'')\<rparr>)],
         live = [], next_ref = 1\<rparr>,
        [Log ''[10.0.0.7] subscribing to snapshot'', Invoke ''snapshot'' 0 None,
         Send (Events [JStr ''a'', JStr ''b'', JStr ''c''] 4), Send (Complete 4)],
        Returned)"
proof -
  have e: "onMessage sample 1 initial (Parsed (subscribe_message 4 ''snapshot'' 0))
     = (\<lparr>sessionId = None,
         subscriptions = [(''4'', \<lparr>ref = 0, name = Some (JStr ''snapshot'')\<rparr>)],
         live = [], next_ref = 1\<rparr>,
        [Log ''[10.0.0.7] subscribing to snapshot'', Invoke ''snapshot'' 0 None,
         Send (Events [JStr ''a'', JStr ''b'', JStr ''c''] 4), Send (Complete 4)],
        Returned)"
    by (simp add: sample_defs handler_defs digits.simps)
  have "field (subscribe_message 4 ''snapshot'' 0) ''type'' = Some (JStr ''subscribe'')"
    and "field (subscribe_message 4 ''snapshot'' 0) ''offset'' = Some (JNum 0)"
    and "field (subscribe_message 4 ''snapshot'' 0) ''subscriptionId'' = Some (JNum 4)"
    and "number_to_string 4 \<notin> fst ` set (subscriptions initial)"
    and "to_property_key (field (subscribe_message 4 ''snapshot'' 0) ''name'') = Some ''snapshot''"
    and "observables sample ''snapshot''
           = Factory (\<lambda>offset sid. Some (array_stream [JStr ''a'', JStr ''b'', JStr ''c'']))"
    and "(\<lambda>offset sid. Some (array_stream [JStr ''a'', JStr ''b'', JStr ''c''])) 0 (sessionId initial)
           = Some (array_stream [JStr ''a'', JStr ''b'', JStr ''c''])"
    and "truthy (array_stream [JStr ''a'', JStr ''b'', JStr ''c''])
           \<and> has_subscribe (array_stream [JStr ''a'', JStr ''b'', JStr ''c''])"
    and "array (array_stream [JStr ''a'', JStr ''b'', JStr ''c''])
           = Some [JStr ''a'', JStr ''b'', JStr ''c'']"
    by (simp_all add: sample_defs)
  from array_source_single_batch [OF this e] e show ?thesis
    by simp
qed

section \<open>Batching\<close>

lemma rebatch_nonempty:
  "batch \<noteq> [] \<Longrightarrow> b \<in> set (rebatch window cap t0 batch rest) \<Longrightarrow> b \<noteq> []"
  by (induction window cap t0 batch rest rule: rebatch.induct) (auto split: if_splits)

lemma rebatch_concat:
  "concat (rebatch window cap t0 batch rest) = batch @ map snd rest"
  by (induction window cap t0 batch rest rule: rebatch.induct) simp_all

lemma batches_nonempty: "b \<in> set (batches window cap xs) \<Longrightarrow> b \<noteq> []"
  by (cases xs) (auto dest: rebatch_nonempty [rotated])

lemma batches_concat: "concat (batches window cap xs) = map snd xs"
  by (cases xs) (auto simp add: rebatch_concat)

lemma run_batches:
  assumes "map_of (live st) r = Some subscriptionId"
  shows "run c st (map (\<lambda>b. (rs, Notify r (OnNext b))) bs)
           = (st, concat (map (\<lambda>b. send c rs (Events b subscriptionId)) bs), Returned)"
  by (induction bs) (simp_all add: notify_def assms)

lemma run_append:
  "run c st es = (st', effects, Returned) \<Longrightarrow>
   run c st (es @ es') =
     (case run c st' es' of (st'', effects', out) \<Rightarrow> (st'', effects @ effects', out))"
proof (induction es arbitrary: st effects)
  case Nil
  then show ?case by (simp split: prod.splits)
next
  case (Cons e es)
  obtain s1 f1 o1 where s: "step c st e = (s1, f1, o1)"
    by (cases "step c st e")
  with Cons.prems have o1: "o1 = Returned"
    by (cases o1) (simp_all split: prod.splits)
  obtain s2 f2 o2 where r: "run c s1 es = (s2, f2, o2)"
    by (cases "run c s1 es")
  with Cons.prems s o1 have "o2 = Returned" "s2 = st'" "effects = f1 @ f2"
    by simp_all
  with Cons.IH [of s1 f2] r s o1 show ?case
    by (simp split: prod.splits)
qed

text \<open>
  C8. Whatever the window and the cap, the batches made from a source are non-empty and
  concatenate to the source's items in their order. Delivered to the observer of a live
  subscription over an open socket, they arrive as one \<^verbatim>\<open>events\<close> envelope per batch, in
  order, and the envelope of the source's completion or error comes after all of them.
\<close>

theorem batches_round_trip:
  assumes "map_of (live st) r = Some subscriptionId"
    and "\<forall>e. ending src = Some (Fails e) \<longrightarrow> to_string e \<noteq> None"
    and "run c st (map (\<lambda>n. (1, Notify r n)) (rewrapBatches window cap src)) = (st', effects, out)"
  shows "(\<forall>b \<in> set (batches window cap (items src)). b \<noteq> [])
       \<and> concat (batches window cap (items src)) = map snd (items src)
       \<and> out = Returned
       \<and> sent effects =
           map (\<lambda>b. Events b subscriptionId) (batches window cap (items src))
             @ (case ending src of
                  None \<Rightarrow> []
                | Some Completes \<Rightarrow> [Complete subscriptionId]
                | Some (Fails e) \<Rightarrow> [ErrorEnvelope e subscriptionId])"
proof -
  let ?bs = "batches window cap (items src)"
  let ?tail = "case ending src of None \<Rightarrow> [] | Some Completes \<Rightarrow> [OnComplete]
                 | Some (Fails e) \<Rightarrow> [OnError e]"
  have parts: "map (\<lambda>n. (1::nat, Notify r n)) (rewrapBatches window cap src)
      = map (\<lambda>b. (1, Notify r (OnNext b))) ?bs @ map (\<lambda>n. (1, Notify r n)) ?tail"
    by (simp add: rewrapBatches_def comp_def)
  have front: "run c st (map (\<lambda>b. (1, Notify r (OnNext b))) ?bs)
      = (st, concat (map (\<lambda>b. send c 1 (Events b subscriptionId)) ?bs), Returned)"
    using assms(1) by (rule run_batches)
  have sent_front: "sent (concat (map (\<lambda>b. send c 1 (Events b subscriptionId)) bs))
      = map (\<lambda>b. Events b subscriptionId) bs" for bs
    by (induction bs) (simp_all add: send_def)
  have rear: "run c st (map (\<lambda>n. (1, Notify r n)) ?tail) = (s, f, out') \<Longrightarrow>
      out' = Returned \<and> sent f = (case ending src of
                  None \<Rightarrow> []
                | Some Completes \<Rightarrow> [Complete subscriptionId]
                | Some (Fails e) \<Rightarrow> [ErrorEnvelope e subscriptionId])" for s f out'
    using assms(1,2)
    by (auto simp add: notify_def send_def split: option.splits ending.splits)
  obtain s f out' where tail: "run c st (map (\<lambda>n. (1, Notify r n)) ?tail) = (s, f, out')"
    by (cases "run c st (map (\<lambda>n. (1, Notify r n)) ?tail)")
  have "run c st (map (\<lambda>n. (1, Notify r n)) (rewrapBatches window cap src))
      = (s, concat (map (\<lambda>b. send c 1 (Events b subscriptionId)) ?bs) @ f, out')"
    unfolding parts run_append [OF front] tail by simp
  with assms(3) have "effects = concat (map (\<lambda>b. send c 1 (Events b subscriptionId)) ?bs) @ f"
    and "out = out'"
    by simp_all
  with rear [OF tail] sent_front show ?thesis
    by (simp add: batches_concat batches_nonempty)
qed

theorem batches_round_trip_witness:
  "batches 1 10 (items sample_source) = [[JNum 1, JNum 2], [JNum 3]]
   \<and> sent (fst (snd (run sample two_feeds
            (map (\<lambda>n. (1, Notify 0 n)) (rewrapBatches 1 10 sample_source)))))
      = [Events [JNum 1, JNum 2] 1, Events [JNum 3] 1, Complete 1]"
proof -
  have b: "batches 1 10 (items sample_source) = [[JNum 1, JNum 2], [JNum 3]]"
    by (simp add: sample_source_def)
  have l: "map_of (live two_feeds) 0 = Some 1"
    by (simp add: two_feeds_def)
  have e: "\<forall>e. ending sample_source = Some (Fails e) \<longrightarrow> to_string e \<noteq> None"
    by (simp add: sample_source_def)
  have r: "run sample two_feeds (map (\<lambda>n. (1, Notify 0 n)) (rewrapBatches 1 10 sample_source))
      = (fst (run sample two_feeds (map (\<lambda>n. (1, Notify 0 n)) (rewrapBatches 1 10 sample_source))),
         fst (snd (run sample two_feeds
                (map (\<lambda>n. (1, Notify 0 n)) (rewrapBatches 1 10 sample_source)))),
         snd (snd (run sample two_feeds
                (map (\<lambda>n. (1, Notify 0 n)) (rewrapBatches 1 10 sample_source)))))"
    by simp
  have "ending sample_source = Some Completes"
    by (simp add: sample_source_def)
  with batches_round_trip [OF l e r] b show ?thesis
    by simp
qed

section \<open>The session id\<close>

text \<open>
  What each handler leaves alone: only a \<^verbatim>\<open>hello\<close> with a string \<^verbatim>\<open>sessionId\<close> assigns the
  session id, only \<open>hello\<close> and \<open>cleanup\<close> emit domain events, and only \<open>subscribe\<close> calls
  a factory.
\<close>

lemma projections_send [simp]:
  "emitted (send c rs v) = []" "invoked (send c rs v) = []" "cancelled (send c rs v) = []"
  by (simp_all add: send_def)

lemma createObserver_frame:
  "emitted (fst (createObserver c rs i n)) = []"
  "invoked (fst (createObserver c rs i n)) = []"
  "cancelled (fst (createObserver c rs i n)) = []"
  by (cases n; simp split: option.splits)+

lemma attach_frame:
  assumes "attach c rs st message key i observable = (st', effects, out)"
  shows "sessionId st' = sessionId st \<and> emitted effects = [] \<and> invoked effects = []
       \<and> cancelled effects = []"
  using assms
  by (auto simp add: attach_def Let_def createObserver_frame split: if_splits option.splits)

lemma subscribe_frame:
  assumes "subscribe c rs st message = (st', effects, out)"
  shows "sessionId st' = sessionId st \<and> emitted effects = []
       \<and> (\<forall>x \<in> set (invoked effects). snd (snd x) = sessionId st)
       \<and> cancelled effects = []"
proof (cases "\<exists>offset i key fn observable.
    field message ''offset'' = Some (JNum offset) \<and> field message ''subscriptionId'' = Some (JNum i)
    \<and> number_to_string i \<notin> fst ` set (subscriptions st)
    \<and> to_property_key (field message ''name'') = Some key
    \<and> observables c key = Factory fn \<and> fn offset (sessionId st) = Some observable")
  case True
  then obtain offset i key fn observable where
    h: "field message ''offset'' = Some (JNum offset)" "field message ''subscriptionId'' = Some (JNum i)"
      "number_to_string i \<notin> fst ` set (subscriptions st)"
      "to_property_key (field message ''name'') = Some key"
      "observables c key = Factory fn" "fn offset (sessionId st) = Some observable"
    by blast
  obtain s f out' where a: "attach c rs st message key i observable = (s, f, out')"
    by (cases "attach c rs st message key i observable")
  from assms have "st' = s" "effects = log c (''subscribing to '' @ key) # Invoke key offset (sessionId st) # f"
    by (simp_all add: subscribe_factory [OF h] a)
  with attach_frame [OF a] show ?thesis
    by simp
next
  case False
  with assms show ?thesis
    by (auto simp add: subscribe_def split: option.splits json.splits if_splits catalog_entry.splits)
qed

lemma unsubscribe_case_frame:
  assumes "unsubscribe_case c st message = (st', effects, out)"
  shows "sessionId st' = sessionId st \<and> emitted effects = [] \<and> invoked effects = []
       \<and> sent effects = []"
  using assms
  by (auto simp add: unsubscribe_case_def split: option.splits json.splits if_splits)

lemma notify_frame:
  assumes "notify c rs st r n = (st', effects, out)"
  shows "sessionId st' = sessionId st \<and> emitted effects = [] \<and> invoked effects = []
       \<and> subscriptions st' = subscriptions st"
proof (cases "map_of (live st) r")
  case None
  with assms show ?thesis by (simp add: notify_def)
next
  case (Some i)
  with assms have "effects = fst (createObserver c rs i n)"
    and "st' = st \<or> st' = st\<lparr>live := unsubscribe r (live st)\<rparr>"
    by (auto simp add: notify_def split: prod.splits notification.splits)
  then show ?thesis
    by (auto simp add: createObserver_frame)
qed

lemma cleanup_frame:
  assumes "cleanup c st = (st', effects)"
  shows "sessionId st' = sessionId st
       \<and> emitted effects = [(ConnectionClosed,
             \<lparr>meta_connectionId = connectionId c, meta_sessionId = sessionId st,
              meta_ipAddress = remoteAddr c\<rparr>)]
       \<and> invoked effects = []"
proof -
  have "invoked (map (\<lambda>kv. Cancel (f kv)) xs) = []" for f :: "string \<times> subscription \<Rightarrow> nat" and xs
    by (induction xs) simp_all
  with assms show ?thesis
    by (auto simp add: cleanup_def insertEvent_def emitted_map_Cancel)
qed

lemma hello_frame:
  assumes "hello c st message = (st', effects, out)"
  shows "(\<forall>x \<in> set (emitted effects). snd x =
             \<lparr>meta_connectionId = connectionId c, meta_sessionId = sessionId st',
              meta_ipAddress = remoteAddr c\<rparr>)
       \<and> invoked effects = []
       \<and> ((\<forall>s. field message ''sessionId'' \<noteq> Some (JStr s)) \<longrightarrow> st' = st \<and> emitted effects = [])"
  using assms
  by (auto simp add: hello_def insertEvent_def Let_def split: option.splits json.splits)

lemma onMessage_untyped:
  assumes "\<forall>t. field m ''type'' \<noteq> Some (JStr t)"
  shows "\<exists>s. onMessage c rs st (Parsed m) = (st, [log c s], Returned)"
proof (cases "field m ''type''")
  case None
  then show ?thesis by (auto simp add: onMessage_def)
next
  case (Some v)
  with assms show ?thesis by (cases v) (auto simp add: onMessage_def)
qed

lemma step_frame:
  assumes "step c st e = (st', effects, out)"
  shows "(\<forall>x \<in> set (emitted effects).
            meta_connectionId (snd x) = connectionId c \<and> meta_ipAddress (snd x) = remoteAddr c
            \<and> meta_sessionId (snd x) = sessionId st')
       \<and> (\<forall>x \<in> set (invoked effects). snd (snd x) = sessionId st)
       \<and> ((\<forall>m s. snd e = Message (Parsed m) \<and> field m ''type'' = Some (JStr ''hello'')
                 \<longrightarrow> field m ''sessionId'' \<noteq> Some (JStr s))
            \<longrightarrow> sessionId st' = sessionId st)"
proof -
  obtain rs ev where e: "e = (rs, ev)" by (cases e)
  show ?thesis
  proof (cases ev)
    case (Message data)
    show ?thesis
    proof (cases data)
      case (Unparseable x)
      with assms e Message show ?thesis by (auto simp add: onMessage_def)
    next
      case (Parsed m)
      show ?thesis
      proof (cases "\<exists>t. field m ''type'' = Some (JStr t)")
        case False
        then obtain s where "onMessage c rs st (Parsed m) = (st, [log c s], Returned)"
          using onMessage_untyped by blast
        with assms e Message Parsed show ?thesis
          by auto
      next
        case True
        then obtain t where t: "field m ''type'' = Some (JStr t)" by blast
        consider "t = ''hello''" | "t = ''subscribe''" | "t = ''unsubscribe''"
          | "t \<noteq> ''hello''" "t \<noteq> ''subscribe''" "t \<noteq> ''unsubscribe''"
          by blast
        then show ?thesis
        proof cases
          case 1
          with assms e Message Parsed t have "hello c st m = (st', effects, out)"
            by (simp add: onMessage_typed)
          from hello_frame [OF this] 1 t show ?thesis
            by (auto simp add: e Message Parsed)
        next
          case 2
          with assms e Message Parsed t have "subscribe c rs st m = (st', effects, out)"
            by (simp add: onMessage_typed)
          from subscribe_frame [OF this] show ?thesis
            by simp
        next
          case 3
          with assms e Message Parsed t have "unsubscribe_case c st m = (st', effects, out)"
            by (simp add: onMessage_typed)
          from unsubscribe_case_frame [OF this] show ?thesis
            by simp
        next
          case 4
          with assms e Message Parsed t show ?thesis
            by (auto simp add: onMessage_typed)
        qed
      qed
    qed
  next
    case Close
    with assms e obtain "cleanup c st = (st', effects)"
      by (auto split: prod.splits)
    from cleanup_frame [OF this] show ?thesis
      by simp
  next
    case (Notify r n)
    with assms e have "notify c rs st r n = (st', effects, out)"
      by simp
    from notify_frame [OF this] show ?thesis
      by simp
  qed
qed

lemma run_frame:
  assumes "run c st0 es = (st, effects, out)"
  shows "(\<forall>x \<in> set (emitted effects).
            meta_connectionId (snd x) = connectionId c \<and> meta_ipAddress (snd x) = remoteAddr c)
       \<and> ((\<forall>e \<in> set es. \<forall>m s. snd e = Message (Parsed m) \<and> field m ''type'' = Some (JStr ''hello'')
                 \<longrightarrow> field m ''sessionId'' \<noteq> Some (JStr s))
            \<longrightarrow> sessionId st = sessionId st0
              \<and> (\<forall>x \<in> set (emitted effects). meta_sessionId (snd x) = sessionId st0)
              \<and> (\<forall>x \<in> set (invoked effects). snd (snd x) = sessionId st0))"
  using assms
proof (induction es arbitrary: st0 st effects out)
  case Nil
  then show ?case by simp
next
  case (Cons e es)
  obtain s1 f1 o1 where s: "step c st0 e = (s1, f1, o1)"
    by (cases "step c st0 e")
  note f = step_frame [OF s]
  show ?case
  proof (cases o1)
    case (Raised x)
    with Cons.prems s have "st = s1" "effects = f1"
      by simp_all
    with f show ?thesis
      by simp
  next
    case Returned
    obtain s2 f2 o2 where r: "run c s1 es = (s2, f2, o2)"
      by (cases "run c s1 es")
    with Cons.prems s Returned have eq: "st = s2" "effects = f1 @ f2"
      by simp_all
    note ih = Cons.IH [OF r]
    have fixed: "\<forall>x \<in> set (emitted effects).
            meta_connectionId (snd x) = connectionId c \<and> meta_ipAddress (snd x) = remoteAddr c"
      using f ih by (auto simp add: eq)
    have quiet: "sessionId st = sessionId st0
              \<and> (\<forall>x \<in> set (emitted effects). meta_sessionId (snd x) = sessionId st0)
              \<and> (\<forall>x \<in> set (invoked effects). snd (snd x) = sessionId st0)"
      if h: "\<forall>e \<in> set (e # es). \<forall>m s. snd e = Message (Parsed m)
                 \<and> field m ''type'' = Some (JStr ''hello'') \<longrightarrow> field m ''sessionId'' \<noteq> Some (JStr s)"
    proof -
      from h f have s1: "sessionId s1 = sessionId st0"
        by simp
      from h have "\<forall>e \<in> set es. \<forall>m s. snd e = Message (Parsed m)
                 \<and> field m ''type'' = Some (JStr ''hello'') \<longrightarrow> field m ''sessionId'' \<noteq> Some (JStr s)"
        by simp
      with ih have "sessionId s2 = sessionId s1
              \<and> (\<forall>x \<in> set (emitted f2). meta_sessionId (snd x) = sessionId s1)
              \<and> (\<forall>x \<in> set (invoked f2). snd (snd x) = sessionId s1)"
        by blast
      with f s1 show ?thesis
        by (auto simp add: eq)
    qed
    from fixed quiet show ?thesis
      by blast
  qed
qed

lemma attach_stream:
  assumes "truthy observable \<and> has_subscribe observable"
    and "attach c rs st message key i observable = (st', effects, out)"
  shows "out = Returned
       \<and> map_of (subscriptions st') (number_to_string i)
           = Some \<lparr>ref = next_ref st, name = field message ''name''\<rparr>"
  using assms
  by (auto simp add: attach_def Let_def map_of_set_property split: option.splits)

text \<open>
  C10. On a connection that has handled no \<^verbatim>\<open>hello\<close> with a string \<^verbatim>\<open>sessionId\<close>, the
  session id is still \<^verbatim>\<open>null\<close>: every domain event emitted so far carries
  \<^verbatim>\<open>meta.sessionId\<close> null, every factory called so far was given the session id null, and
  a subscribe message that is valid and names a factory returning a stream is accepted,
  with the factory called with the session id null and the subscription stored. In every
  run, with or without \<^verbatim>\<open>hello\<close>, \<^verbatim>\<open>meta.connectionId\<close> and \<^verbatim>\<open>meta.ipAddress\<close> are the
  connection's own.
\<close>

theorem session_null_before_hello:
  assumes "run c initial es = (st, effects, out)"
  shows "(\<forall>x \<in> set (emitted effects).
            meta_connectionId (snd x) = connectionId c \<and> meta_ipAddress (snd x) = remoteAddr c)
       \<and> ((\<forall>e \<in> set es. \<forall>m s. snd e = Message (Parsed m) \<and> field m ''type'' = Some (JStr ''hello'')
                 \<longrightarrow> field m ''sessionId'' \<noteq> Some (JStr s))
            \<longrightarrow> sessionId st = None
              \<and> (\<forall>x \<in> set (emitted effects). meta_sessionId (snd x) = None)
              \<and> (\<forall>x \<in> set (invoked effects). snd (snd x) = None)
              \<and> (\<forall>message offset i key fn observable rs st' effects' out'.
                    field message ''type'' = Some (JStr ''subscribe'')
                    \<and> field message ''offset'' = Some (JNum offset)
                    \<and> field message ''subscriptionId'' = Some (JNum i)
                    \<and> number_to_string i \<notin> fst ` set (subscriptions st)
                    \<and> to_property_key (field message ''name'') = Some key
                    \<and> observables c key = Factory fn
                    \<and> fn offset None = Some observable
                    \<and> truthy observable \<and> has_subscribe observable
                    \<and> onMessage c rs st (Parsed message) = (st', effects', out')
                    \<longrightarrow> out' = Returned
                      \<and> take 2 effects' = [log c (''subscribing to '' @ key), Invoke key offset None]
                      \<and> map_of (subscriptions st') (number_to_string i)
                          = Some \<lparr>ref = next_ref st, name = field message ''name''\<rparr>))"
proof -
  note r = run_frame [OF assms]
  have accepted: "out' = Returned
        \<and> take 2 effects' = [log c (''subscribing to '' @ key), Invoke key offset None]
        \<and> map_of (subscriptions st') (number_to_string i)
            = Some \<lparr>ref = next_ref st, name = field message ''name''\<rparr>"
    if null: "sessionId st = None"
      and m: "field message ''type'' = Some (JStr ''subscribe'')"
        "field message ''offset'' = Some (JNum offset)"
        "field message ''subscriptionId'' = Some (JNum i)"
        "number_to_string i \<notin> fst ` set (subscriptions st)"
        "to_property_key (field message ''name'') = Some key"
        "observables c key = Factory fn"
        "fn offset None = Some observable"
      and stream: "truthy observable \<and> has_subscribe observable"
      and res: "onMessage c rs st (Parsed message) = (st', effects', out')"
    for message offset i key fn observable rs st' effects' out'
  proof -
    obtain s f out'' where a: "attach c rs st message key i observable = (s, f, out'')"
      by (cases "attach c rs st message key i observable")
    have "fn offset (sessionId st) = Some observable"
      using m(7) null by simp
    from subscribe_factory [OF m(2-6) this] res m(1) a
    have "st' = s" "effects' = log c (''subscribing to '' @ key) # Invoke key offset (sessionId st) # f"
      "out' = out''"
      by (simp_all add: onMessage_typed)
    with attach_stream [OF stream a] null show ?thesis
      by simp
  qed
  from r accepted show ?thesis
    by (simp add: initial_def) blast
qed

theorem session_null_before_hello_witness:
  "emitted (fst (snd (run sample initial
       [(1, Message (Parsed (subscribe_message 1 ''feed'' 0))), (3, Close)])))
     = [(ConnectionClosed, \<lparr>meta_connectionId = ''c1'', meta_sessionId = None,
                            meta_ipAddress = ''10.0.0.7''\<rparr>)]
   \<and> invoked (fst (snd (run sample initial
       [(1, Message (Parsed (subscribe_message 1 ''feed'' 0))), (3, Close)])))
     = [(''feed'', 0, None)]"
proof -
  let ?es = "[(1::nat, Message (Parsed (subscribe_message 1 ''feed'' 0))), (3, Close)]"
  have e: "run sample initial ?es =
      (\<lparr>sessionId = None, subscriptions = [], live = [], next_ref = 1\<rparr>,
       [Log ''[10.0.0.7] subscribing to feed'', Invoke ''feed'' 0 None,
        Log ''[10.0.0.7] Closing WebSocket'', Cancel 0,
        Emit ConnectionClosed \<lparr>meta_connectionId = ''c1'', meta_sessionId = None,
                               meta_ipAddress = ''10.0.0.7''\<rparr>],
       Returned)"
    by (simp add: sample_defs handler_defs digits.simps)
  have quiet: "\<forall>e \<in> set ?es. \<forall>m s. snd e = Message (Parsed m)
                 \<and> field m ''type'' = Some (JStr ''hello'') \<longrightarrow> field m ''sessionId'' \<noteq> Some (JStr s)"
    by (simp add: subscribe_message_def)
  from session_null_before_hello [OF e] quiet
  have "\<forall>x \<in> set (emitted [Log ''[10.0.0.7] subscribing to feed'', Invoke ''feed'' 0 None,
        Log ''[10.0.0.7] Closing WebSocket'', Cancel 0,
        Emit ConnectionClosed \<lparr>meta_connectionId = ''c1'', meta_sessionId = None,
                               meta_ipAddress = ''10.0.0.7''\<rparr>]). meta_sessionId (snd x) = None"
    by blast
  then show ?thesis
    unfolding e by simp
qed

section \<open>Exceptions\<close>

text \<open>
  C2. The spec has the handler validate before it acts and never throw to the transport,
  whatever the message. The \<^verbatim>\<open>unsubscribe\<close> case does not: it evaluates
  \<^verbatim>\<open>message.subscriptionId in subscriptions\<close> (line 173) before its own test of
  \<^verbatim>\<open>typeof message.subscriptionId\<close> (line 178), where the \<^verbatim>\<open>subscribe\<close> case tests the type
  first (line 113) and the table second (line 118). An \<^verbatim>\<open>unsubscribe\<close> whose
  \<^verbatim>\<open>subscriptionId\<close> is an object with an own \<^verbatim>\<open>toString\<close> property, as in
  \<^verbatim>\<open>{"type":"unsubscribe","subscriptionId":{"toString":1}}\<close>, so reaches the \<^verbatim>\<open>in\<close> test, which
  has to convert it to a property key and cannot: a \<^verbatim>\<open>TypeError\<close> leaves the handler, and
  nothing is logged.
\<close>

theorem unsubscribe_object_id_raises:
  "onMessage sample 1 initial
     (Parsed (JObj [(''type'', JStr ''unsubscribe''),
                    (''subscriptionId'', JObj [(''toString'', JNum 1)])]))
   = (initial, [], Raised TypeError)"
  by (simp add: sample_defs handler_defs)

text \<open>
  Other exceptions that leave the handler, none of them caught: a catalog entry that is
  truthy and not a function (line 127 tests truthiness, line 128 calls), a factory that
  throws, a \<^verbatim>\<open>name\<close> that has no property key (line 123).
\<close>

lemma other_exceptions:
  "onMessage sample 1 initial (Parsed (subscribe_message 1 ''config'' 0))
     = (initial, [Log ''[10.0.0.7] subscribing to config''], Raised TypeError)"
  "onMessage sample 1 initial (Parsed (subscribe_message 1 ''boom'' 0))
     = (initial, [Log ''[10.0.0.7] subscribing to boom'', Invoke ''boom'' 0 None],
        Raised FactoryError)"
  "onMessage sample 1 initial
     (Parsed (JObj [(''type'', JStr ''subscribe''), (''subscriptionId'', JNum 1),
                    (''name'', JArr [JObj [(''toString'', JNull)]]), (''offset'', JNum 0)]))
     = (initial, [], Raised TypeError)"
  by (simp_all add: sample_defs handler_defs digits.simps)

lemma hello_returns:
  assumes "hello c st m = (st', effects, out)"
  shows "out = Returned \<and> subscriptions st' = subscriptions st \<and> sent effects = []
       \<and> cancelled effects = [] \<and> (\<exists>s. Log s \<in> set effects)"
  using assms
  by (auto simp add: hello_def Let_def insertEvent_def log_def split: option.splits json.splits)

lemma in_delete: "kv \<in> set (AList.delete k al) \<Longrightarrow> kv \<in> set al"
  by (simp add: AList.delete_eq)

lemma attach_returns:
  assumes "truthy observable \<and> has_subscribe observable \<or> shown observable \<noteq> None"
    and "attach c rs st m key i observable = (st', effects, out)"
  shows "out = Returned
       \<and> (subscriptions st' = subscriptions st
          \<or> subscriptions st' =
              set_property (number_to_string i) \<lparr>ref = next_ref st, name = field m ''name''\<rparr>
                (subscriptions st))"
  using assms
  by (auto simp add: attach_def Let_def split: option.splits if_splits)

lemma subscribe_returns:
  assumes "to_property_key (field m ''name'') = Some key"
    and "observables c key \<noteq> NotCallable"
    and "\<forall>fn offset. observables c key = Factory fn \<and> field m ''offset'' = Some (JNum offset) \<longrightarrow>
           (\<exists>observable. fn offset (sessionId st) = Some observable
              \<and> (truthy observable \<and> has_subscribe observable \<or> shown observable \<noteq> None))"
    and "subscribe c rs st m = (st', effects, out)"
  shows "out = Returned
       \<and> (subscriptions st' = subscriptions st
          \<or> (\<exists>i. subscriptions st' =
              set_property (number_to_string i) \<lparr>ref = next_ref st, name = field m ''name''\<rparr>
                (subscriptions st)))"
proof (cases "\<exists>offset i fn.
    field m ''offset'' = Some (JNum offset) \<and> field m ''subscriptionId'' = Some (JNum i)
    \<and> number_to_string i \<notin> fst ` set (subscriptions st) \<and> observables c key = Factory fn")
  case True
  then obtain offset i fn where
    h: "field m ''offset'' = Some (JNum offset)" "field m ''subscriptionId'' = Some (JNum i)"
      "number_to_string i \<notin> fst ` set (subscriptions st)" and fn: "observables c key = Factory fn"
    by blast
  with assms(3) obtain observable where o: "fn offset (sessionId st) = Some observable"
    and ok: "truthy observable \<and> has_subscribe observable \<or> shown observable \<noteq> None"
    by blast
  obtain s f out' where a: "attach c rs st m key i observable = (s, f, out')"
    by (cases "attach c rs st m key i observable")
  from assms(4) have "st' = s" "out = out'"
    by (simp_all add: subscribe_factory [OF h assms(1) fn o] a)
  with attach_returns [OF ok a] show ?thesis
    by blast
next
  case False
  with assms show ?thesis
    by (auto simp add: subscribe_def split: option.splits json.splits if_splits catalog_entry.splits)
qed

lemma unsubscribe_case_returns:
  assumes "\<forall>kv \<in> set (subscriptions st). to_property_key (name (snd kv)) \<noteq> None"
    and "to_property_key (field m ''subscriptionId'') = Some key"
    and "unsubscribe_case c st m = (st', effects, out)"
  shows "out = Returned
       \<and> (subscriptions st' = subscriptions st
          \<or> subscriptions st' = AList.delete key (subscriptions st))"
proof (cases "\<exists>i. field m ''subscriptionId'' = Some (JNum i) \<and> has_property key (subscriptions st)")
  case True
  then obtain i where i: "field m ''subscriptionId'' = Some (JNum i)"
    and p: "has_property key (subscriptions st)"
    by blast
  from i assms(2) have key: "key = number_to_string i"
    by simp
  with p have "key \<in> fst ` set (subscriptions st)"
    by simp
  then obtain subscription where s: "map_of (subscriptions st) key = Some subscription"
    by (metis domD dom_map_of_conv_image_fst)
  then have "(key, subscription) \<in> set (subscriptions st)"
    by (rule map_of_SomeD)
  with assms(1) obtain str where "to_property_key (name subscription) = Some str"
    by fastforce
  with assms(2,3) i p s show ?thesis
    by (auto simp add: unsubscribe_case_def)
next
  case False
  with assms(2,3) show ?thesis
    by (auto simp add: unsubscribe_case_def split: option.splits json.splits if_splits)
qed

text \<open>
  Where the handler returns. The names stored in the table convert to strings, and the
  handler keeps it so. From such a state it returns, having changed the table under at
  most one key, for every message which, if it is an \<^verbatim>\<open>unsubscribe\<close>, has a
  \<^verbatim>\<open>subscriptionId\<close> that converts to a property key and, if it is a \<^verbatim>\<open>subscribe\<close>, has a
  \<^verbatim>\<open>name\<close> that converts to a property key under which the catalog holds nothing or a
  function that returns either a stream or a value with a string rendering.
\<close>

lemma handler_returns:
  assumes "\<forall>kv \<in> set (subscriptions st). to_property_key (name (snd kv)) \<noteq> None"
    and "\<forall>m. data = Parsed m \<and> field m ''type'' = Some (JStr ''unsubscribe'') \<longrightarrow>
           to_property_key (field m ''subscriptionId'') \<noteq> None"
    and "\<forall>m. data = Parsed m \<and> field m ''type'' = Some (JStr ''subscribe'') \<longrightarrow>
           (\<exists>key. to_property_key (field m ''name'') = Some key
              \<and> observables c key \<noteq> NotCallable
              \<and> (\<forall>fn offset. observables c key = Factory fn
                     \<and> field m ''offset'' = Some (JNum offset) \<longrightarrow>
                   (\<exists>observable. fn offset (sessionId st) = Some observable
                      \<and> (truthy observable \<and> has_subscribe observable
                         \<or> shown observable \<noteq> None))))"
    and "onMessage c rs st data = (st', effects, out)"
  shows "out = Returned
       \<and> (\<forall>kv \<in> set (subscriptions st'). to_property_key (name (snd kv)) \<noteq> None)
       \<and> (\<exists>key. \<forall>k. k \<noteq> key \<longrightarrow> map_of (subscriptions st') k = map_of (subscriptions st) k)"
proof -
  have same: ?thesis if "out = Returned" "subscriptions st' = subscriptions st"
    using that assms(1) by simp
  show ?thesis
  proof (cases data)
    case (Unparseable e)
    with assms(4) show ?thesis
      by (intro same) (simp_all add: onMessage_def)
  next
    case (Parsed m)
    show ?thesis
    proof (cases "\<exists>t. field m ''type'' = Some (JStr t)")
      case False
      then obtain s where "onMessage c rs st (Parsed m) = (st, [log c s], Returned)"
        using onMessage_untyped by blast
      with assms(4) Parsed show ?thesis
        by (intro same) simp_all
    next
      case True
      then obtain t where t: "field m ''type'' = Some (JStr t)"
        by blast
      consider "t = ''hello''" | "t = ''subscribe''" | "t = ''unsubscribe''"
        | "t \<noteq> ''hello''" "t \<noteq> ''subscribe''" "t \<noteq> ''unsubscribe''"
        by blast
      then show ?thesis
      proof cases
        case 1
        with assms(4) Parsed t have "hello c st m = (st', effects, out)"
          by (simp add: onMessage_typed)
        from hello_returns [OF this] show ?thesis
          by (intro same) simp_all
      next
        case 2
        with assms(4) Parsed t have r: "subscribe c rs st m = (st', effects, out)"
          by (simp add: onMessage_typed)
        from assms(3) Parsed t 2 obtain key where
          k: "to_property_key (field m ''name'') = Some key" "observables c key \<noteq> NotCallable"
            "\<forall>fn offset. observables c key = Factory fn \<and> field m ''offset'' = Some (JNum offset) \<longrightarrow>
               (\<exists>observable. fn offset (sessionId st) = Some observable
                  \<and> (truthy observable \<and> has_subscribe observable \<or> shown observable \<noteq> None))"
          by blast
        from subscribe_returns [OF k r] consider "subscriptions st' = subscriptions st"
          | i where "subscriptions st' =
              set_property (number_to_string i) \<lparr>ref = next_ref st, name = field m ''name''\<rparr>
                (subscriptions st)"
          by blast
        then show ?thesis
        proof cases
          case 1
          with subscribe_returns [OF k r] show ?thesis
            by (intro same) simp_all
        next
          case 2
          have "to_property_key (name (snd kv)) \<noteq> None" if "kv \<in> set (subscriptions st')" for kv
            using in_set_property [OF that [unfolded 2]] assms(1) k(1) by auto
          moreover have "\<forall>k. k \<noteq> number_to_string i \<longrightarrow>
              map_of (subscriptions st') k = map_of (subscriptions st) k"
            by (simp add: 2 map_of_set_property)
          ultimately show ?thesis
            using subscribe_returns [OF k r] by blast
        qed
      next
        case 3
        with assms(4) Parsed t have r: "unsubscribe_case c st m = (st', effects, out)"
          by (simp add: onMessage_typed)
        from assms(2) Parsed t 3 obtain key where
          k: "to_property_key (field m ''subscriptionId'') = Some key"
          by blast
        note u = unsubscribe_case_returns [OF assms(1) k r]
        then consider "subscriptions st' = subscriptions st"
          | "subscriptions st' = AList.delete key (subscriptions st)"
          by blast
        then show ?thesis
        proof cases
          case 1
          with u show ?thesis
            by (intro same) simp_all
        next
          case 2
          have "to_property_key (name (snd kv)) \<noteq> None" if "kv \<in> set (subscriptions st')" for kv
            using in_delete [OF that [unfolded 2]] assms(1) by auto
          moreover have "\<forall>k. k \<noteq> key \<longrightarrow>
              map_of (subscriptions st') k = map_of (subscriptions st) k"
            by (simp add: 2 delete_conv')
          ultimately show ?thesis
            using u by blast
        qed
      next
        case 4
        with assms(4) Parsed t show ?thesis
          by (intro same) (simp_all add: onMessage_typed)
      qed
    qed
  qed
qed

lemma handler_returns_example:
  "onMessage sample 1 two_feeds (Parsed (subscribe_message 3 ''feed'' 7))
   = (\<lparr>sessionId = Some ''s1'',
       subscriptions = [(''1'', \<lparr>ref = 0, name = Some (JStr ''feed'')\<rparr>),
                        (''2'', \<lparr>ref = 1, name = Some (JStr ''feed'')\<rparr>),
                        (''3'', \<lparr>ref = 2, name = Some (JStr ''feed'')\<rparr>)],
       live = [(0, 1), (1, 2), (2, 3)], next_ref = 3\<rparr>,
      [Log ''[10.0.0.7] subscribing to feed'', Invoke ''feed'' 7 (Some ''s1'')],
      Returned)"
  by (simp add: sample_defs handler_defs digits.simps)

section \<open>Protocol errors\<close>

text \<open>
  C1 as the spec has it: a subscribe with a missing or non-string \<^verbatim>\<open>name\<close> is a protocol
  error, logged and not answered. The source never tests \<^verbatim>\<open>message.name\<close>. Here a subscribe
  without a name, on an open socket and a catalog with no entry \<^verbatim>\<open>undefined\<close>, is answered
  with the 404 envelope.
\<close>

theorem subscribe_without_name_answered:
  "field (JObj [(''type'', JStr ''subscribe''), (''subscriptionId'', JNum 1), (''offset'', JNum 0)])
     ''name'' = None
   \<and> onMessage sample 1 initial
       (Parsed (JObj [(''type'', JStr ''subscribe''), (''subscriptionId'', JNum 1),
                      (''offset'', JNum 0)]))
     = (initial,
        [Log ''[10.0.0.7] subscribing to undefined'',
         Send (ErrorEnvelope (JObj [(''code'', JNum 404), (''message'', JStr ''Not found'')]) 1)],
        Returned)"
  by (simp add: sample_defs handler_defs digits.simps)

lemma unsubscribe_case_rejects:
  assumes "to_property_key (field m ''subscriptionId'') = Some key"
    and "key \<notin> fst ` set (subscriptions st) \<or> (\<forall>i. field m ''subscriptionId'' \<noteq> Some (JNum i))"
  shows "\<exists>s. unsubscribe_case c st m = (st, [log c s], Returned)"
proof (cases "\<exists>i. field m ''subscriptionId'' = Some (JNum i)")
  case True
  then obtain i where i: "field m ''subscriptionId'' = Some (JNum i)"
    by blast
  with assms have "key = number_to_string i" "key \<notin> fst ` set (subscriptions st)"
    by auto
  then have "\<not> has_property key (subscriptions st)"
    by simp
  with assms(1) show ?thesis
    by (auto simp add: unsubscribe_case_def)
next
  case False
  with assms(1) show ?thesis
    by (auto simp add: unsubscribe_case_def split: option.splits json.splits)
qed

lemma subscribe_rejects:
  assumes "(\<forall>i. field m ''offset'' \<noteq> Some (JNum i))
         \<or> (\<forall>i. field m ''subscriptionId'' \<noteq> Some (JNum i))
         \<or> (\<exists>i. field m ''subscriptionId'' = Some (JNum i)
                \<and> number_to_string i \<in> fst ` set (subscriptions st))"
  shows "\<exists>s. subscribe c rs st m = (st, [log c s], Returned)"
proof (cases "\<exists>offset i. field m ''offset'' = Some (JNum offset)
    \<and> field m ''subscriptionId'' = Some (JNum i)")
  case True
  with assms subscribe_duplicate [of m _ _ st c rs] show ?thesis
    by auto
next
  case False
  then show ?thesis
    by (auto simp add: subscribe_def split: option.splits json.splits)
qed

lemma hello_rejects:
  assumes "\<forall>s. field m ''sessionId'' \<noteq> Some (JStr s)"
  shows "hello c st m = (st, [log c ''expected sessionId''], Returned)"
  using assms
  by (auto simp add: hello_def split: option.splits json.splits)

text \<open>
  C1, amended. A payload that does not parse; a message that is \<^verbatim>\<open>null\<close> or has no string
  \<^verbatim>\<open>type\<close>; a \<^verbatim>\<open>hello\<close> without a string \<^verbatim>\<open>sessionId\<close>; a \<^verbatim>\<open>subscribe\<close> whose \<^verbatim>\<open>offset\<close> or
  \<^verbatim>\<open>subscriptionId\<close> is not a number, or whose \<^verbatim>\<open>subscriptionId\<close> is in the table; an
  \<^verbatim>\<open>unsubscribe\<close> whose \<^verbatim>\<open>subscriptionId\<close> converts to a property key and is not in the table
  or is not a number; a message of any other type: each is logged on the log subject,
  the handler returns, nothing is written to the socket, and the state, with the table
  in it, is unchanged.
\<close>

theorem protocol_errors_dropped:
  assumes "(\<exists>e. data = Unparseable e)
         \<or> (\<exists>m. data = Parsed m \<and>
              ((\<forall>t. field m ''type'' \<noteq> Some (JStr t))
               \<or> (field m ''type'' = Some (JStr ''hello'')
                    \<and> (\<forall>s. field m ''sessionId'' \<noteq> Some (JStr s)))
               \<or> (field m ''type'' = Some (JStr ''subscribe'')
                    \<and> ((\<forall>i. field m ''offset'' \<noteq> Some (JNum i))
                       \<or> (\<forall>i. field m ''subscriptionId'' \<noteq> Some (JNum i))
                       \<or> (\<exists>i. field m ''subscriptionId'' = Some (JNum i)
                              \<and> number_to_string i \<in> fst ` set (subscriptions st))))
               \<or> (field m ''type'' = Some (JStr ''unsubscribe'')
                    \<and> (\<exists>key. to_property_key (field m ''subscriptionId'') = Some key
                          \<and> (key \<notin> fst ` set (subscriptions st)
                             \<or> (\<forall>i. field m ''subscriptionId'' \<noteq> Some (JNum i)))))
               \<or> (\<exists>t. field m ''type'' = Some (JStr t)
                      \<and> t \<noteq> ''hello'' \<and> t \<noteq> ''subscribe'' \<and> t \<noteq> ''unsubscribe'')))"
    and "onMessage c rs st data = (st', effects, out)"
  shows "st' = st \<and> out = Returned \<and> sent effects = []
       \<and> (\<exists>s. Log (''['' @ remoteAddr c @ ''] '' @ s) \<in> set effects)
       \<and> (\<forall>e \<in> set effects. \<exists>s. e = Log s \<or> e = ConsoleError s)"
proof -
  have "(\<exists>e s. onMessage c rs st data = (st, [ConsoleError e, log c s], Returned))
      \<or> (\<exists>s. onMessage c rs st data = (st, [log c s], Returned))"
    using assms(1)
  proof (elim disjE exE conjE)
    fix e assume "data = Unparseable e"
    then show ?thesis by (auto simp add: onMessage_def)
  next
    fix m assume "data = Parsed m" "\<forall>t. field m ''type'' \<noteq> Some (JStr t)"
    then show ?thesis using onMessage_untyped by simp
  next
    fix m assume "data = Parsed m" "field m ''type'' = Some (JStr ''hello'')"
      "\<forall>s. field m ''sessionId'' \<noteq> Some (JStr s)"
    then show ?thesis by (auto simp add: onMessage_typed hello_rejects)
  next
    fix m assume "data = Parsed m" "field m ''type'' = Some (JStr ''subscribe'')"
      "\<forall>i. field m ''offset'' \<noteq> Some (JNum i)"
    then show ?thesis using subscribe_rejects [of m st c rs] by (simp add: onMessage_typed)
  next
    fix m assume "data = Parsed m" "field m ''type'' = Some (JStr ''subscribe'')"
      "\<forall>i. field m ''subscriptionId'' \<noteq> Some (JNum i)"
    then show ?thesis using subscribe_rejects [of m st c rs] by (simp add: onMessage_typed)
  next
    fix m i assume "data = Parsed m" "field m ''type'' = Some (JStr ''subscribe'')"
      "field m ''subscriptionId'' = Some (JNum i)"
      "number_to_string i \<in> fst ` set (subscriptions st)"
    then show ?thesis using subscribe_rejects [of m st c rs] by (simp add: onMessage_typed)
  next
    fix m key assume "data = Parsed m" "field m ''type'' = Some (JStr ''unsubscribe'')"
      "to_property_key (field m ''subscriptionId'') = Some key"
      "key \<notin> fst ` set (subscriptions st)"
    then show ?thesis using unsubscribe_case_rejects [of m key st c] by (simp add: onMessage_typed)
  next
    fix m key assume "data = Parsed m" "field m ''type'' = Some (JStr ''unsubscribe'')"
      "to_property_key (field m ''subscriptionId'') = Some key"
      "\<forall>i. field m ''subscriptionId'' \<noteq> Some (JNum i)"
    then show ?thesis using unsubscribe_case_rejects [of m key st c] by (simp add: onMessage_typed)
  next
    fix m t assume "data = Parsed m" "field m ''type'' = Some (JStr t)"
      "t \<noteq> ''hello''" "t \<noteq> ''subscribe''" "t \<noteq> ''unsubscribe''"
    then show ?thesis by (auto simp add: onMessage_typed)
  qed
  with assms(2) show ?thesis
    by (auto simp add: log_def)
qed

theorem protocol_errors_dropped_witness:
  "onMessage sample 1 two_feeds (Parsed (subscribe_message 1 ''snapshot'' 0))
     = (two_feeds, [Log ''[10.0.0.7] subscriptionId sent twice: 1''], Returned)"
proof -
  let ?m = "subscribe_message 1 ''snapshot'' 0"
  have e: "onMessage sample 1 two_feeds (Parsed ?m)
      = (two_feeds, [Log ''[10.0.0.7] subscriptionId sent twice: 1''], Returned)"
    by (simp add: sample_defs handler_defs digits.simps)
  have "field ?m ''type'' = Some (JStr ''subscribe'')
      \<and> field ?m ''subscriptionId'' = Some (JNum 1)
      \<and> number_to_string 1 \<in> fst ` set (subscriptions two_feeds)"
    by (simp add: sample_defs number_to_string_def digits.simps digit_def)
  then have "(\<exists>e. Parsed ?m = Unparseable e)
         \<or> (\<exists>m. Parsed ?m = Parsed m \<and>
              ((\<forall>t. field m ''type'' \<noteq> Some (JStr t))
               \<or> (field m ''type'' = Some (JStr ''hello'')
                    \<and> (\<forall>s. field m ''sessionId'' \<noteq> Some (JStr s)))
               \<or> (field m ''type'' = Some (JStr ''subscribe'')
                    \<and> ((\<forall>i. field m ''offset'' \<noteq> Some (JNum i))
                       \<or> (\<forall>i. field m ''subscriptionId'' \<noteq> Some (JNum i))
                       \<or> (\<exists>i. field m ''subscriptionId'' = Some (JNum i)
                              \<and> number_to_string i \<in> fst ` set (subscriptions two_feeds))))
               \<or> (field m ''type'' = Some (JStr ''unsubscribe'')
                    \<and> (\<exists>key. to_property_key (field m ''subscriptionId'') = Some key
                          \<and> (key \<notin> fst ` set (subscriptions two_feeds)
                             \<or> (\<forall>i. field m ''subscriptionId'' \<noteq> Some (JNum i)))))
               \<or> (\<exists>t. field m ''type'' = Some (JStr t)
                      \<and> t \<noteq> ''hello'' \<and> t \<noteq> ''subscribe'' \<and> t \<noteq> ''unsubscribe'')))"
    by blast
  from protocol_errors_dropped [OF this e] e show ?thesis
    by simp
qed

end
